theory Spec2Isabelle
  imports Complex_Main "HOL-Library.Log_Nat" "HOL-Library.Sublist"
begin

chapter \<open>The document-grounded answer evaluation pipeline\<close>

text \<open>
  A shallow embedding of the algorithmic core of the interview-preparation server:
  \<^item> \<^verbatim>\<open>chunkText\<close> (utils/pdfProcessor.js) and the chunking step of
    \<^verbatim>\<open>uploadDocument\<close> (controllers/documentController.js);
  \<^item> \<^verbatim>\<open>retryWithBackoff\<close>, \<^verbatim>\<open>generateEmbeddings\<close>, \<^verbatim>\<open>evaluateAllAnswers\<close>,
    \<^verbatim>\<open>cosineSimilarity\<close> and \<^verbatim>\<open>findSimilarChunks\<close> (utils/gemini.js);
  \<^item> \<^verbatim>\<open>calculateFinalScores\<close> (models/Chat.js).

  The first part holds the model, one definition per source function; the second part holds
  the properties.
\<close>

section \<open>Model\<close>

subsection \<open>Strings\<close>

text \<open>
  A JavaScript string is a sequence of UTF-16 code units, and \<^verbatim>\<open>length\<close> counts code units.
  A code unit is modelled by its number. \<open>js\<close> turns an ASCII literal into such a sequence.
\<close>

type_synonym jsstring = "nat list"

definition js :: "string \<Rightarrow> jsstring" where
  "js s = map of_char s"

text \<open>
  The characters that \<^verbatim>\<open>\s\<close> matches and that \<^verbatim>\<open>trim()\<close> strips: ECMAScript's WhiteSpace
  (TAB, VT, FF, SP, NBSP, ZWNBSP and the Unicode space separators) and LineTerminator
  (LF, CR, LS, PS).
\<close>

definition is_space :: "nat \<Rightarrow> bool" where
  "is_space c \<longleftrightarrow>
     c = 9 \<or> c = 10 \<or> c = 11 \<or> c = 12 \<or> c = 13 \<or> c = 32 \<or> c = 160 \<or> c = 5760 \<or>
     (8192 \<le> c \<and> c \<le> 8202) \<or> c = 8232 \<or> c = 8233 \<or> c = 8239 \<or> c = 8287 \<or>
     c = 12288 \<or> c = 65279"

text \<open>\<^verbatim>\<open>s.trim()\<close>\<close>

definition trim :: "jsstring \<Rightarrow> jsstring" where
  "trim s = rev (dropWhile is_space (rev (dropWhile is_space s)))"

text \<open>
  \<^verbatim>\<open>s.replace(/C+/g, r)\<close> for a character class \<open>C\<close>, given as the predicate \<open>P\<close>: every
  maximal run of characters of the class is replaced by \<open>r\<close>.
\<close>

function replace_plus :: "(nat \<Rightarrow> bool) \<Rightarrow> jsstring \<Rightarrow> jsstring \<Rightarrow> jsstring" where
  "replace_plus P r [] = []"
| "replace_plus P r (c # cs) =
     (if P c then r @ replace_plus P r (dropWhile P cs) else c # replace_plus P r cs)"
  by pat_completeness auto
termination
  by (relation "measure (\<lambda>(P, r, s). length s)")
     (auto simp: length_dropWhile_le le_imp_less_Suc)

text \<open>
  \<^verbatim>\<open>s.split(sep)\<close> for a separator of one character; \<^verbatim>\<open>"".split(' ')\<close> is \<^verbatim>\<open>[""]\<close>.
\<close>

fun split_on :: "nat \<Rightarrow> jsstring \<Rightarrow> jsstring list" where
  "split_on sep [] = [[]]"
| "split_on sep (c # cs) =
     (if c = sep then [] # split_on sep cs
      else (case split_on sep cs of [] \<Rightarrow> [[c]] | w # ws \<Rightarrow> (c # w) # ws))"

text \<open>\<^verbatim>\<open>xs.join(sep)\<close> on an array of strings\<close>

fun join :: "jsstring \<Rightarrow> jsstring list \<Rightarrow> jsstring" where
  "join sep [] = []"
| "join sep [w] = w"
| "join sep (w # v # ws) = w @ sep @ join sep (v # ws)"

text \<open>\<^verbatim>\<open>xs.slice(i, j)\<close> for \<open>0 \<le> i \<le> j\<close>; indices beyond the end are clamped.\<close>

definition slice :: "'a list \<Rightarrow> nat \<Rightarrow> nat \<Rightarrow> 'a list" where
  "slice xs i j = take (j - i) (drop i xs)"

text \<open>\<^verbatim>\<open>s.includes(pat)\<close>\<close>

fun str_includes :: "jsstring \<Rightarrow> jsstring \<Rightarrow> bool" where
  "str_includes [] pat = (pat = [])"
| "str_includes (c # cs) pat = (prefix pat (c # cs) \<or> str_includes cs pat)"

text \<open>The decimal digits of a non-negative integer, as template literals print it.\<close>

function digits_of :: "nat \<Rightarrow> jsstring" where
  "digits_of n = (if n < 10 then [48 + n] else digits_of (n div 10) @ [48 + n mod 10])"
  by pat_completeness auto
termination
  by (relation "measure id") auto

declare digits_of.simps [simp del]

subsection \<open>Numbers and values\<close>

text \<open>
  A JavaScript number is an IEEE 754 binary64 value: a finite value, an infinity or NaN.
  A finite value is identified with the real number it denotes; the two zeros are
  identified (they compare equal, and the program never divides by a negative zero).
\<close>

datatype jsnum = Fin real | PInf | NInf | NaN

datatype jsval =
    Undefined
  | Null
  | Bool bool
  | Number jsnum
  | String jsstring
  | Array "jsval list"
  | Object "(jsstring \<times> jsval) list"

text \<open>\<^verbatim>\<open>!!v\<close>: the values that count as true in a condition.\<close>

fun truthy :: "jsval \<Rightarrow> bool" where
  "truthy Undefined = False"
| "truthy Null = False"
| "truthy (Bool b) = b"
| "truthy (Number n) = (n \<noteq> Fin 0 \<and> n \<noteq> NaN)"
| "truthy (String s) = (s \<noteq> [])"
| "truthy (Array xs) = True"
| "truthy (Object ps) = True"

text \<open>
  \<^verbatim>\<open>v?.name\<close> for a property name that is not built into arrays, strings, numbers or
  booleans: the property of an object, and \<^verbatim>\<open>undefined\<close> for every other value.
\<close>

fun get_prop :: "jsval \<Rightarrow> jsstring \<Rightarrow> jsval" where
  "get_prop (Object ps) name = (case map_of ps name of None \<Rightarrow> Undefined | Some v \<Rightarrow> v)"
| "get_prop v name = Undefined"

text \<open>
  Arithmetic on finite numbers is the exact operation on the reals followed by rounding to
  the nearest binary64 value, ties to the value with an even significand, as IEEE 754
  prescribes for addition, multiplication, division and square root. \<open>round_half_even\<close>
  rounds a real to the nearest integer, a tie to the even one.
\<close>

definition round_half_even :: "real \<Rightarrow> int" where
  "round_half_even r =
     (let f = \<lfloor>r\<rfloor>; d = r - of_int f
      in if d < 1 / 2 then f else if 1 / 2 < d then f + 1 else if even f then f else f + 1)"

text \<open>
  Every finite binary64 value is an integer multiple of \<open>2 ^ - 1074\<close>, the smallest positive
  value. \<open>round_magnitude x\<close> rounds \<open>x \<ge> 0\<close>: \<open>k\<close> is \<open>x\<close> in units of \<open>2 ^ - 1074\<close>; up to
  \<open>2 ^ 53\<close> units the values are one unit apart, and above that a value keeps 53 significant
  bits, so the \<open>sh\<close> lowest bits of \<open>k\<close> are rounded away. A result of \<open>2 ^ 1024\<close> or more
  overflows (\<open>None\<close>).
\<close>

definition min_exponent :: nat where
  "min_exponent = 1074"

definition round_magnitude :: "real \<Rightarrow> real option" where
  "round_magnitude x =
     (let k = x * 2 ^ min_exponent;
          sh = nat (bitlen \<lfloor>k\<rfloor> - 53);
          m = round_half_even (k / 2 ^ sh)
      in if 2 ^ (1024 + min_exponent) \<le> m * 2 ^ sh then None
         else Some (of_int (m * 2 ^ sh) / 2 ^ min_exponent))"

definition round_double :: "real \<Rightarrow> jsnum" where
  "round_double x =
     (if 0 \<le> x then (case round_magnitude x of None \<Rightarrow> PInf | Some y \<Rightarrow> Fin y)
      else (case round_magnitude (- x) of None \<Rightarrow> NInf | Some y \<Rightarrow> Fin (- y)))"

text \<open>
  The operations of the language on numbers, with their special cases. Where a zero divides
  a non-zero number, the zero is taken to be positive (the zeros that the program divides by
  are products and square roots of non-negative numbers).
\<close>

fun js_neg :: "jsnum \<Rightarrow> jsnum" where
  "js_neg (Fin a) = Fin (- a)"
| "js_neg PInf = NInf"
| "js_neg NInf = PInf"
| "js_neg NaN = NaN"

fun js_add :: "jsnum \<Rightarrow> jsnum \<Rightarrow> jsnum" where
  "js_add (Fin a) (Fin b) = round_double (a + b)"
| "js_add NaN y = NaN"
| "js_add x NaN = NaN"
| "js_add PInf NInf = NaN"
| "js_add NInf PInf = NaN"
| "js_add PInf y = PInf"
| "js_add NInf y = NInf"
| "js_add x PInf = PInf"
| "js_add x NInf = NInf"

definition js_sub :: "jsnum \<Rightarrow> jsnum \<Rightarrow> jsnum" where
  "js_sub x y = js_add x (js_neg y)"

fun js_mul :: "jsnum \<Rightarrow> jsnum \<Rightarrow> jsnum" where
  "js_mul (Fin a) (Fin b) = round_double (a * b)"
| "js_mul NaN y = NaN"
| "js_mul x NaN = NaN"
| "js_mul (Fin a) PInf = (if a = 0 then NaN else if 0 < a then PInf else NInf)"
| "js_mul (Fin a) NInf = (if a = 0 then NaN else if 0 < a then NInf else PInf)"
| "js_mul PInf (Fin b) = (if b = 0 then NaN else if 0 < b then PInf else NInf)"
| "js_mul NInf (Fin b) = (if b = 0 then NaN else if 0 < b then NInf else PInf)"
| "js_mul PInf PInf = PInf"
| "js_mul PInf NInf = NInf"
| "js_mul NInf PInf = NInf"
| "js_mul NInf NInf = PInf"

fun js_div :: "jsnum \<Rightarrow> jsnum \<Rightarrow> jsnum" where
  "js_div (Fin a) (Fin b) =
     (if b = 0 then (if a = 0 then NaN else if 0 < a then PInf else NInf)
      else round_double (a / b))"
| "js_div NaN y = NaN"
| "js_div x NaN = NaN"
| "js_div (Fin a) PInf = Fin 0"
| "js_div (Fin a) NInf = Fin 0"
| "js_div PInf (Fin b) = (if 0 \<le> b then PInf else NInf)"
| "js_div NInf (Fin b) = (if 0 \<le> b then NInf else PInf)"
| "js_div PInf PInf = NaN"
| "js_div PInf NInf = NaN"
| "js_div NInf PInf = NaN"
| "js_div NInf NInf = NaN"

fun js_sqrt :: "jsnum \<Rightarrow> jsnum" where
  "js_sqrt (Fin a) = (if a < 0 then NaN else round_double (sqrt a))"
| "js_sqrt PInf = PInf"
| "js_sqrt NInf = NaN"
| "js_sqrt NaN = NaN"

text \<open>\<open>x < y\<close>, \<^verbatim>\<open>Math.min\<close> and \<^verbatim>\<open>Math.max\<close>\<close>

fun js_less :: "jsnum \<Rightarrow> jsnum \<Rightarrow> bool" where
  "js_less NaN y = False"
| "js_less x NaN = False"
| "js_less (Fin a) (Fin b) = (a < b)"
| "js_less (Fin a) PInf = True"
| "js_less NInf (Fin b) = True"
| "js_less NInf PInf = True"
| "js_less x y = False"

fun js_min :: "jsnum \<Rightarrow> jsnum \<Rightarrow> jsnum" where
  "js_min NaN y = NaN"
| "js_min x NaN = NaN"
| "js_min x y = (if js_less y x then y else x)"

fun js_max :: "jsnum \<Rightarrow> jsnum \<Rightarrow> jsnum" where
  "js_max NaN y = NaN"
| "js_max x NaN = NaN"
| "js_max x y = (if js_less x y then y else x)"


text \<open>The reals that are integer multiples of \<open>2 ^ - 1074\<close>.\<close>

definition on_grid :: "real \<Rightarrow> bool" where
  "on_grid x \<longleftrightarrow> (\<exists>j::int. x = of_int j / 2 ^ min_exponent)"

subsection \<open>The text chunker\<close>

text \<open>
  \<^verbatim>\<open>
  exports.chunkText = (text, wordsPerChunk = 500) => {
    const cleanedText = text.replace(/\s+/g, ' ').replace(/\n+/g, '\n').trim();
    const words = cleanedText.split(' ');
    const chunks = [];
    for (let i = 0; i < words.length; i += wordsPerChunk) {
      const chunk = words.slice(i, i + wordsPerChunk).join(' ');
      if (chunk.trim().length > 50) { chunks.push(chunk.trim()); }
    }
    return chunks;
  };\<close>
  With \<^verbatim>\<open>wordsPerChunk = 0\<close> the loop never advances, so the loop is a partial function and
  \<open>None\<close> stands for not returning.
\<close>

partial_function (option) chunk_loop ::
    "jsstring list \<Rightarrow> nat \<Rightarrow> nat \<Rightarrow> jsstring list \<Rightarrow> jsstring list option" where
  "chunk_loop words wordsPerChunk i chunks =
     (if i < length words then
        (let chunk = join [32] (slice words i (i + wordsPerChunk))
         in chunk_loop words wordsPerChunk (i + wordsPerChunk)
              (if 50 < length (trim chunk) then chunks @ [trim chunk] else chunks))
      else Some chunks)"

declare chunk_loop.simps [code]

definition chunkText :: "jsstring \<Rightarrow> nat \<Rightarrow> jsstring list option" where
  "chunkText text wordsPerChunk =
     (let cleanedText = trim (replace_plus (\<lambda>c. c = 10) [10] (replace_plus is_space [32] text));
          words = split_on 32 cleanedText
      in chunk_loop words wordsPerChunk 0 [])"

text \<open>
  The chunking step of \<^verbatim>\<open>uploadDocument\<close>: the handler answers 400 when the extracted text
  is too short and when \<^verbatim>\<open>chunkText\<close> returns no chunk; otherwise it goes on to the
  embedding of the chunks.
  \<^verbatim>\<open>
  if (!extractedText || extractedText.trim().length < 50) {
    return res.status(400).json({ success: false, message: 'Could not extract ...' });
  }
  const textChunks = chunkText(extractedText, 500);
  if (!textChunks || textChunks.length === 0) {
    return res.status(400).json({ success: false,
      message: 'Text extracted, but failed to divide into valid chunks.' });
  }
  const embeddings = await generateEmbeddings(textChunks);\<close>
\<close>

datatype upload_step = Respond nat jsstring | Embed "jsstring list"

definition uploadDocument_chunking :: "jsstring \<Rightarrow> upload_step option" where
  "uploadDocument_chunking extractedText =
     (if extractedText = [] \<or> length (trim extractedText) < 50 then
        Some (Respond 400 (js ''Could not extract sufficient text from PDF. Please ensure the PDF contains selectable text and is not just an image.''))
      else
        (case chunkText extractedText 500 of
           None \<Rightarrow> None
         | Some textChunks \<Rightarrow>
             if textChunks = [] then
               Some (Respond 400 (js ''Text extracted, but failed to divide into valid chunks.''))
             else Some (Embed textChunks)))"

text \<open>
  The vocabulary of the chunker's specification: the word sequence of a text, the consecutive
  windows of \<open>n\<close> elements of a sequence, and the windows that become chunks.
\<close>

definition input_words :: "jsstring \<Rightarrow> jsstring list" where
  "input_words text = split_on 32 (trim (replace_plus is_space [32] text))"

function windows :: "nat \<Rightarrow> 'a list \<Rightarrow> 'a list list" where
  "windows n xs = (if n = 0 \<or> xs = [] then [] else take n xs # windows n (drop n xs))"
  by pat_completeness auto
termination
  by (relation "measure (\<lambda>(n, xs). length xs)") auto

declare windows.simps [simp del]

definition kept :: "jsstring list \<Rightarrow> bool" where
  "kept w \<longleftrightarrow> 50 < length (trim (join [32] w))"

subsection \<open>Retry with exponential backoff\<close>

text \<open>
  What a failed call throws: an error object, of which the retry policy reads
  \<^verbatim>\<open>error.status\<close>, \<^verbatim>\<open>error.response.status\<close> (numbers, or absent) and \<^verbatim>\<open>error.message\<close>
  (a string, or absent). \<open>Error msg\<close> is \<^verbatim>\<open>new Error(msg)\<close>.
\<close>

record js_error =
  status :: "nat option"
  response_status :: "nat option"
  message :: "jsstring option"

definition Error :: "jsstring \<Rightarrow> js_error" where
  "Error msg = \<lparr>status = None, response_status = None, message = Some msg\<rparr>"

definition MAX_RETRIES :: nat where
  "MAX_RETRIES = 3"

definition INITIAL_RETRY_DELAY :: nat where
  "INITIAL_RETRY_DELAY = 1000"

text \<open>
  \<^verbatim>\<open>
  const status = error?.status || error?.response?.status;
  const isRateLimitError = status === 503 || status === 429 ||
    error.message?.includes('overloaded') || error.message?.includes('rate limit');\<close>
\<close>

definition isRateLimitError :: "js_error \<Rightarrow> bool" where
  "isRateLimitError error =
     (let st = (case status error of
                  None \<Rightarrow> response_status error
                | Some n \<Rightarrow> if n = 0 then response_status error else Some n)
      in st = Some 503 \<or> st = Some 429
         \<or> (case message error of None \<Rightarrow> False | Some m \<Rightarrow> str_includes m (js ''overloaded''))
         \<or> (case message error of None \<Rightarrow> False | Some m \<Rightarrow> str_includes m (js ''rate limit'')))"

text \<open>
  The wrapped call \<^verbatim>\<open>fn\<close> talks to an external service, so each call may answer
  differently: it is a function of the state of the world that returns its result, or the
  error it throws, with the new state. A run of the wrapper is described by its outcome, the
  state it leaves, the number of calls of \<^verbatim>\<open>fn\<close> it made and the delays it waited, in
  milliseconds and in order.
  \<^verbatim>\<open>
  async function retryWithBackoff(fn, retries = MAX_RETRIES) {
    for (let i = 0; i < retries; i++) {
      try {
        return await fn();
      } catch (error) {
        const isLastRetry = i === retries - 1;
        ...
        if (isLastRetry || !isRateLimitError) { throw error; }
        const delay = INITIAL_RETRY_DELAY * Math.pow(2, i);
        await new Promise(resolve => setTimeout(resolve, delay));
      }
    }
    throw new Error(`API call failed after ${retries} retries.`);
  }\<close>
\<close>

record ('a, 's) retry_run =
  outcome :: "js_error + 'a"
  world :: 's
  attempts :: nat
  delays :: "nat list"

function retry_loop ::
  "('s \<Rightarrow> (js_error + 'a) \<times> 's) \<Rightarrow> nat \<Rightarrow> nat \<Rightarrow> 's \<Rightarrow> nat list
     \<Rightarrow> ('a, 's) retry_run" where
  "retry_loop fn retries i s ds =
     (if i < retries then
        (case fn s of
           (Inr v, s') \<Rightarrow>
             \<lparr>outcome = Inr v, world = s', attempts = i + 1, delays = ds\<rparr>
         | (Inl error, s') \<Rightarrow>
             (let isLastRetry = (i = retries - 1)
              in if isLastRetry \<or> \<not> isRateLimitError error then
                   \<lparr>outcome = Inl error, world = s', attempts = i + 1, delays = ds\<rparr>
                 else
                   (let delay = INITIAL_RETRY_DELAY * 2 ^ i
                    in retry_loop fn retries (i + 1) s' (ds @ [delay]))))
      else
        \<lparr>outcome = Inl (Error (js ''API call failed after '' @ digits_of retries @ js '' retries.'')),
         world = s, attempts = i, delays = ds\<rparr>)"
  by pat_completeness auto
termination
  by (relation "measure (\<lambda>(fn, retries, i, s, ds). retries - i)") auto

declare retry_loop.simps [simp del]

definition retryWithBackoff ::
  "('s \<Rightarrow> (js_error + 'a) \<times> 's) \<Rightarrow> nat \<Rightarrow> 's \<Rightarrow> ('a, 's) retry_run" where
  "retryWithBackoff fn retries s = retry_loop fn retries 0 s []"

text \<open>
  The vocabulary of the retry policy: the state before call number \<open>k\<close> (from 0) of a
  sequence of calls of \<open>fn\<close>, and what that call returns or throws.
\<close>

definition state_before :: "('s \<Rightarrow> (js_error + 'a) \<times> 's) \<Rightarrow> 's \<Rightarrow> nat \<Rightarrow> 's" where
  "state_before fn s k = ((\<lambda>t. snd (fn t)) ^^ k) s"

definition call :: "('s \<Rightarrow> (js_error + 'a) \<times> 's) \<Rightarrow> 's \<Rightarrow> nat \<Rightarrow> js_error + 'a" where
  "call fn s k = fst (fn (state_before fn s k))"

definition run_ok ::
  "('s \<Rightarrow> (js_error + 'a) \<times> 's) \<Rightarrow> nat \<Rightarrow> nat \<Rightarrow> 's \<Rightarrow> nat list \<Rightarrow> ('a, 's) retry_run \<Rightarrow> bool" where
  "run_ok fn retries i s ds run \<longleftrightarrow>
     i < attempts run \<and> attempts run \<le> retries
     \<and> delays run = ds @ map (\<lambda>k. INITIAL_RETRY_DELAY * 2 ^ k) [i..<attempts run - 1]
     \<and> (\<forall>k<attempts run - 1 - i. \<exists>e. call fn s k = Inl e \<and> isRateLimitError e)
     \<and> outcome run = call fn s (attempts run - 1 - i)
     \<and> world run = snd (fn (state_before fn s (attempts run - 1 - i)))
     \<and> (\<forall>e. outcome run = Inl e \<longrightarrow> \<not> isRateLimitError e \<or> attempts run = retries)"

text \<open>A service that answers every call with status 503.\<close>

definition busy_service :: "unit \<Rightarrow> (js_error + unit) \<times> unit" where
  "busy_service s = (Inl \<lparr>status = Some 503, response_status = None, message = None\<rparr>, s)"

subsection \<open>The embedding client\<close>

text \<open>
  The embedding service is external: \<open>embedContent text s\<close> is what
  \<^verbatim>\<open>model.embedContent(text)\<close> returns (any value) or throws in the state \<open>s\<close> of the world,
  with the state after the call.
  \<^verbatim>\<open>
  const result = await retryWithBackoff(async () => {
    const res = await model.embedContent(text);
    if (!res?.embedding?.values || !Array.isArray(res.embedding.values) ||
        res.embedding.values.length !== embeddingDimension) {
      throw new Error(`Invalid embedding response for chunk (expected dim ${embeddingDimension})`);
    }
    return res.embedding.values;
  });\<close>
  (\<^verbatim>\<open>values\<close> is a built-in method of arrays: when \<^verbatim>\<open>res.embedding\<close> is an array the source
  rejects it at \<^verbatim>\<open>Array.isArray\<close> and the model at the first test, with the same error.)
\<close>

definition embeddingDimension :: nat where
  "embeddingDimension = 768"

definition zero_vector :: jsval where
  "zero_vector = Array (replicate embeddingDimension (Number (Fin 0)))"

fun is_array :: "jsval \<Rightarrow> bool" where
  "is_array (Array xs) = True"
| "is_array v = False"

fun array_length :: "jsval \<Rightarrow> nat" where
  "array_length (Array xs) = length xs"
| "array_length v = 0"

definition embed_call ::
  "(jsstring \<Rightarrow> 's \<Rightarrow> (js_error + jsval) \<times> 's) \<Rightarrow> jsstring \<Rightarrow> 's \<Rightarrow> (js_error + jsval) \<times> 's" where
  "embed_call embedContent text s =
     (case embedContent text s of
        (Inl error, s') \<Rightarrow> (Inl error, s')
      | (Inr res, s') \<Rightarrow>
          (let values = get_prop (get_prop res (js ''embedding'')) (js ''values'')
           in if \<not> truthy values \<or> \<not> is_array values \<or> array_length values \<noteq> embeddingDimension
              then (Inl (Error (js ''Invalid embedding response for chunk (expected dim ''
                                 @ digits_of embeddingDimension @ js '')'')), s')
              else (Inr values, s')))"

text \<open>
  \<^verbatim>\<open>
  exports.generateEmbeddings = async (texts) => {
    try {
      if (!Array.isArray(texts) || texts.length === 0) {
        throw new Error('Input must be a non-empty array of texts for embeddings');
      }
      const embeddings = [];
      const embeddingDimension = 768;
      for (const text of texts) {
        if (!text || typeof text !== 'string' || text.trim().length === 0) {
          embeddings.push(new Array(embeddingDimension).fill(0));
          continue;
        }
        try {
          const result = await retryWithBackoff(...);
          embeddings.push(result);
        } catch (chunkError) {
          embeddings.push(new Array(embeddingDimension).fill(0));
        }
      }
      return embeddings;
    } catch (error) {
      throw new Error(`Failed to generate embeddings: ${error.message}`);
    }
  };\<close>
\<close>

fun embeddings_loop ::
  "(jsstring \<Rightarrow> 's \<Rightarrow> (js_error + jsval) \<times> 's) \<Rightarrow> jsval list \<Rightarrow> 's \<Rightarrow> jsval list
     \<Rightarrow> jsval list \<times> 's" where
  "embeddings_loop embedContent [] s embeddings = (embeddings, s)"
| "embeddings_loop embedContent (text # rest) s embeddings =
     (case text of
        String t \<Rightarrow>
          if \<not> truthy text \<or> length (trim t) = 0 then
            embeddings_loop embedContent rest s (embeddings @ [zero_vector])
          else
            (let run = retryWithBackoff (embed_call embedContent t) MAX_RETRIES s
             in case outcome run of
                  Inr result \<Rightarrow> embeddings_loop embedContent rest (world run) (embeddings @ [result])
                | Inl chunkError \<Rightarrow>
                    embeddings_loop embedContent rest (world run) (embeddings @ [zero_vector]))
      | _ \<Rightarrow> embeddings_loop embedContent rest s (embeddings @ [zero_vector]))"

definition generateEmbeddings ::
  "(jsstring \<Rightarrow> 's \<Rightarrow> (js_error + jsval) \<times> 's) \<Rightarrow> jsval \<Rightarrow> 's
     \<Rightarrow> (js_error + jsval list) \<times> 's" where
  "generateEmbeddings embedContent texts s =
     (case texts of
        Array ts \<Rightarrow>
          if ts = [] then
            (Inl (Error (js ''Failed to generate embeddings: ''
                         @ js ''Input must be a non-empty array of texts for embeddings'')), s)
          else (case embeddings_loop embedContent ts s [] of
                  (embeddings, s') \<Rightarrow> (Inr embeddings, s'))
      | _ \<Rightarrow>
          (Inl (Error (js ''Failed to generate embeddings: ''
                       @ js ''Input must be a non-empty array of texts for embeddings'')), s))"

text \<open>
  The vocabulary of the batch's specification: what one item contributes (its vector and the
  state it leaves), and the state before item number \<open>i\<close> when the items are handled one
  after the other in input order.
\<close>


definition embed_item ::
  "(jsstring \<Rightarrow> 's \<Rightarrow> (js_error + jsval) \<times> 's) \<Rightarrow> jsval \<Rightarrow> 's \<Rightarrow> jsval \<times> 's" where
  "embed_item embedContent text s =
     (case text of
        String t \<Rightarrow>
          if trim t = [] then (zero_vector, s)
          else (case outcome (retryWithBackoff (embed_call embedContent t) MAX_RETRIES s) of
                  Inr v \<Rightarrow> (v, world (retryWithBackoff (embed_call embedContent t) MAX_RETRIES s))
                | Inl e \<Rightarrow> (zero_vector, world (retryWithBackoff (embed_call embedContent t) MAX_RETRIES s)))
      | _ \<Rightarrow> (zero_vector, s))"

fun item_state ::
  "(jsstring \<Rightarrow> 's \<Rightarrow> (js_error + jsval) \<times> 's) \<Rightarrow> jsval list \<Rightarrow> 's \<Rightarrow> nat \<Rightarrow> 's" where
  "item_state embedContent ts s 0 = s"
| "item_state embedContent ts s (Suc i) =
     snd (embed_item embedContent (ts ! i) (item_state embedContent ts s i))"

text \<open>
  A sample embedding service: busy for the text "busy", a vector of one element for the
  text "short", a vector of the right dimension for every other text; its state counts
  the calls.
\<close>

definition sample_embedder :: "jsstring \<Rightarrow> nat \<Rightarrow> (js_error + jsval) \<times> nat" where
  "sample_embedder text calls =
     (if text = js ''busy'' then
        Inl \<lparr>status = Some 503, response_status = None, message = None\<rparr>
      else if text = js ''short'' then
        Inr (Object [(js ''embedding'', Object [(js ''values'', Array [Number (Fin 1)])])])
      else
        Inr (Object [(js ''embedding'',
               Object [(js ''values'', Array (replicate embeddingDimension (Number (Fin 1))))])]),
      calls + 1)"

subsection \<open>The answer evaluator\<close>

text \<open>
  The regular expressions of the parser all have the flag \<^verbatim>\<open>i\<close>. Without the flag
  \<^verbatim>\<open>u\<close> two characters match when their upper-case forms agree, and a character outside
  ASCII never matches an ASCII one; the patterns are ASCII, so only the ASCII letters are
  folded.
\<close>

definition canon :: "nat \<Rightarrow> nat" where
  "canon c = (if 97 \<le> c \<and> c \<le> 122 then c - 32 else c)"

definition is_digit :: "nat \<Rightarrow> bool" where
  "is_digit c \<longleftrightarrow> 48 \<le> c \<and> c \<le> 57"

text \<open>
  \<open>ci_prefix p s\<close>: the literal \<open>p\<close> matches at the start of \<open>s\<close> ignoring case; the result is
  the rest of \<open>s\<close>.
\<close>

fun ci_prefix :: "jsstring \<Rightarrow> jsstring \<Rightarrow> jsstring option" where
  "ci_prefix [] s = Some s"
| "ci_prefix (p # ps) [] = None"
| "ci_prefix (p # ps) (c # cs) = (if canon p = canon c then ci_prefix ps cs else None)"

text \<open>
  \<^verbatim>\<open>/Question\s+\d+:/i\<close> matched at the start of \<open>s\<close>; the result is what follows the match.
  The classes \<^verbatim>\<open>\s\<close>, \<^verbatim>\<open>\d\<close> and the colon are disjoint, so the greedy match is the only
  one.
\<close>

definition match_question :: "jsstring \<Rightarrow> jsstring option" where
  "match_question s =
     (case ci_prefix (js ''Question'') s of
        None \<Rightarrow> None
      | Some r \<Rightarrow>
          (let r1 = dropWhile is_space r in
           if length r1 = length r then None
           else (let r2 = dropWhile is_digit r1 in
                 if length r2 = length r1 then None
                 else (case r2 of [] \<Rightarrow> None | c # r3 \<Rightarrow> if c = 58 then Some r3 else None))))"

text \<open>
  \<^verbatim>\<open>evaluationText.split(/Question\s+\d+:/i)\<close>: the text is scanned from the left; at a
  match the piece read so far is emitted and the scan goes on after the match; the last
  piece is what remains. \<open>cur\<close> is the piece read so far.
\<close>

function split_question :: "jsstring \<Rightarrow> jsstring \<Rightarrow> jsstring list" where
  "split_question [] cur = [cur]"
| "split_question (c # cs) cur =
     (case match_question (c # cs) of
        Some rest \<Rightarrow> cur # split_question rest []
      | None \<Rightarrow> split_question cs (cur @ [c]))"
  by pat_completeness auto
termination
proof (relation "measure (\<lambda>(s, cur). length s)")
  show "wf (measure (\<lambda>(s, cur). length s))" by simp
next
  fix c :: nat and cs cur :: jsstring
  show "((cs, cur @ [c]), c # cs, cur) \<in> measure (\<lambda>(s, cur). length s)" by simp
next
  fix c :: nat and cs cur rest :: jsstring
  assume m: "match_question (c # cs) = Some rest"
  have ci: "ci_prefix p s = Some r \<Longrightarrow> length r \<le> length s" for p s r
    by (induction p s rule: ci_prefix.induct) (auto split: if_splits)
  from m obtain r where r: "ci_prefix (js ''Question'') (c # cs) = Some r"
    by (auto simp: match_question_def split: option.splits)
  from m r have "length rest < length r"
    using length_dropWhile_le[of is_space r] length_dropWhile_le[of is_digit "dropWhile is_space r"]
    by (auto simp: match_question_def Let_def split: if_splits list.splits)
  with ci[OF r] show "((rest, []), c # cs, cur) \<in> measure (\<lambda>(s, cur). length s)" by simp
qed

text \<open>
  \<^verbatim>\<open>block.match(/Label:\s*(\d+)(?:\s*\/10)?/i)\<close>: the leftmost place where the label,
  optional whitespace and at least one digit follow each other; the result is the captured
  run of digits.
\<close>

fun find_score :: "jsstring \<Rightarrow> jsstring \<Rightarrow> jsstring option" where
  "find_score label [] = None"
| "find_score label (c # cs) =
     (case ci_prefix label (c # cs) of
        Some r \<Rightarrow>
          (let digits = takeWhile is_digit (dropWhile is_space r)
           in if digits \<noteq> [] then Some digits else find_score label cs)
      | None \<Rightarrow> find_score label cs)"

text \<open>\<^verbatim>\<open>block.match(/Feedback:\s*([\s\S]*)/i)\<close>: the capture is the rest of the block.\<close>

fun find_feedback :: "jsstring \<Rightarrow> jsstring option" where
  "find_feedback [] = None"
| "find_feedback (c # cs) =
     (case ci_prefix (js ''Feedback:'') (c # cs) of
        Some r \<Rightarrow> Some (dropWhile is_space r)
      | None \<Rightarrow> find_feedback cs)"

text \<open>
  \<^verbatim>\<open>parseInt(digits, 10)\<close> on a non-empty run of digits. The scores are integers: the source
  computes them as doubles, which are exact up to \<open>2 ^ 53\<close>; a longer run of digits gives a
  double that is not exact but still above 10, so that after the clamping to \<open>[1, 10]\<close> the
  value is the one computed with exact integers. \<^verbatim>\<open>Math.round((r + c) / 2)\<close> rounds a half
  upwards, which is \<open>(r + c + 1) div 2\<close>.
\<close>

definition parseInt :: "jsstring \<Rightarrow> nat" where
  "parseInt digits = foldl (\<lambda>a d. 10 * a + (d - 48)) 0 digits"

text \<open>\<^verbatim>\<open>Math.max(1, Math.min(10, x || 1))\<close>\<close>

definition clamp_score :: "nat \<Rightarrow> nat" where
  "clamp_score x = max 1 (min 10 (if x = 0 then 1 else x))"

record evaluation =
  score :: nat
  relevanceScore :: nat
  correctnessScore :: nat
  feedback :: jsstring

text \<open>
  The body of the loop over the blocks:
  \<^verbatim>\<open>
  const block = questionBlocks[i].trim();
  const relevanceMatch = block.match(/Relevance:\s*(\d+)(?:\s*\/10)?/i);
  const correctnessMatch = block.match(/Correctness:\s*(\d+)(?:\s*\/10)?/i);
  const overallMatch = block.match(/Overall:\s*(\d+)(?:\s*\/10)?/i);
  const feedbackMatch = block.match(/Feedback:\s*([\s\S]*)/i);
  let relevanceScore = relevanceMatch ? parseInt(relevanceMatch[1], 10) : 5;
  let correctnessScore = correctnessMatch ? parseInt(correctnessMatch[1], 10) : 5;
  let overallScore = overallMatch ? parseInt(overallMatch[1], 10)
                                  : Math.round((relevanceScore + correctnessScore) / 2);
  const feedback = feedbackMatch ? feedbackMatch[1].trim() : 'Feedback could not be parsed. ...';
  relevanceScore = Math.max(1, Math.min(10, relevanceScore || 1));
  correctnessScore = Math.max(1, Math.min(10, correctnessScore || 1));
  overallScore = Math.max(1, Math.min(10, overallScore || 1));
  evaluations.push({ score: overallScore, relevanceScore, correctnessScore, feedback });\<close>
\<close>

definition parse_block :: "jsstring \<Rightarrow> evaluation" where
  "parse_block raw =
     (let block = trim raw;
          relevanceMatch = find_score (js ''Relevance:'') block;
          correctnessMatch = find_score (js ''Correctness:'') block;
          overallMatch = find_score (js ''Overall:'') block;
          feedbackMatch = find_feedback block;
          relevanceScore = (case relevanceMatch of Some d \<Rightarrow> parseInt d | None \<Rightarrow> 5);
          correctnessScore = (case correctnessMatch of Some d \<Rightarrow> parseInt d | None \<Rightarrow> 5);
          overallScore = (case overallMatch of Some d \<Rightarrow> parseInt d
                          | None \<Rightarrow> (relevanceScore + correctnessScore + 1) div 2);
          feedback = (case feedbackMatch of Some f \<Rightarrow> trim f
                      | None \<Rightarrow> js ''Feedback could not be parsed. Please check the raw AI response if needed.'')
      in \<lparr>score = clamp_score overallScore,
          relevanceScore = clamp_score relevanceScore,
          correctnessScore = clamp_score correctnessScore,
          feedback = feedback\<rparr>)"


fun is_string :: "jsval \<Rightarrow> bool" where
  "is_string (String s) = True"
| "is_string v = False"

fun string_value :: "jsval \<Rightarrow> jsstring" where
  "string_value (String s) = s"
| "string_value v = []"

text \<open>
  \<^verbatim>\<open>
  questionsAndAnswers.forEach((qa, idx) => {
    if (!qa || typeof qa.question !== 'string' || typeof qa.answer !== 'string') {
      throw new Error(`Invalid format for question/answer pair at index ${idx}. ...`);
    }
  });\<close>
\<close>

fun validate_pairs :: "jsval list \<Rightarrow> nat \<Rightarrow> js_error option" where
  "validate_pairs [] idx = None"
| "validate_pairs (qa # rest) idx =
     (if \<not> truthy qa \<or> \<not> is_string (get_prop qa (js ''question''))
         \<or> \<not> is_string (get_prop qa (js ''answer''))
      then Some (Error (js ''Invalid format for question/answer pair at index '' @ digits_of idx
                        @ js ''. Expected {question: string, answer: string}''))
      else validate_pairs rest (idx + 1))"

text \<open>
  The prompt. \<open>qa_lines\<close> is the \<^verbatim>\<open>map\<close> that formats the pairs; it runs after the
  validation, on pairs of strings.
\<close>

fun qa_lines :: "jsval list \<Rightarrow> nat \<Rightarrow> jsstring list" where
  "qa_lines [] idx = []"
| "qa_lines (qa # rest) idx =
     (js ''Question '' @ digits_of (idx + 1) @ js '': '' @ string_value (get_prop qa (js ''question''))
      @ js ''\<newline>Candidate's Answer: '' @ string_value (get_prop qa (js ''answer'')))
     # qa_lines rest (idx + 1)"

definition evaluation_prompt_head :: jsstring where
  "evaluation_prompt_head =
       js ''You are an expert interview evaluator specializing in software engineering roles (MERN stack). Evaluate the candidate's responses to ALL interview questions below with DETAILED SCORING based on relevance, correctness, and overall quality, considering the provided resume context.\<newline>''
     @ js ''\<newline>''
     @ js ''Interview Questions and Answers:\<newline>''"

definition evaluation_prompt_context :: jsstring where
  "evaluation_prompt_context =
       js ''\<newline>''
     @ js ''\<newline>''
     @ js ''Relevant Context from Candidate's Resume (use this to gauge experience claims):\<newline>''"

definition evaluation_prompt_task :: jsstring where
  "evaluation_prompt_task =
       js ''\<newline>''
     @ js ''\<newline>''
     @ js ''Evaluation Task:\<newline>''
     @ js ''For EACH question, provide the following on separate lines:\<newline>''
     @ js ''1.  **Relevance Score** (1-10): How directly and completely does the answer address the specific question asked? (1=Off-topic, 10=Perfectly relevant)\<newline>''
     @ js ''2.  **Correctness Score** (1-10): How technically accurate, logically sound, and factually correct is the answer? Consider best practices for MERN stack development. (1=Incorrect, 10=Flawless)\<newline>''
     @ js ''3.  **Overall Score** (1-10): Your combined assessment of the answer's quality, considering clarity, depth, examples, and relevance to the resume context. (1=Poor, 10=Excellent)\<newline>''
     @ js ''4.  **Feedback** (Max 100 words): Constructive feedback that includes:\<newline>''
     @ js ''    * Specific strengths observed in the answer.\<newline>''
     @ js ''    * Clear areas for improvement with actionable suggestions.\<newline>''
     @ js ''    * Comment on how well the answer aligns with or utilizes experience mentioned in the resume context, if applicable.\<newline>''
     @ js ''\<newline>''
     @ js ''Format your response EXACTLY like this template for EACH question, ensuring all labels and score formats are precise:\<newline>''
     @ js ''\<newline>''
     @ js ''Question 1:\<newline>''
     @ js ''Relevance: [number]/10\<newline>''
     @ js ''Correctness: [number]/10\<newline>''
     @ js ''Overall: [number]/10\<newline>''
     @ js ''Feedback: [Your detailed feedback for Question 1, max 100 words]\<newline>''
     @ js ''\<newline>''
     @ js ''Question 2:\<newline>''
     @ js ''Relevance: [number]/10\<newline>''
     @ js ''Correctness: [number]/10\<newline>''
     @ js ''Overall: [number]/10\<newline>''
     @ js ''Feedback: [Your detailed feedback for Question 2, max 100 words]\<newline>''
     @ js ''\<newline>''
     @ js ''[...continue this format for all ''"

definition evaluation_prompt_tail :: jsstring where
  "evaluation_prompt_tail =
       js '' questions...]\<newline>''
     @ js ''\<newline>''
     @ js ''Begin evaluation now:''"

definition evaluation_prompt :: "jsval list \<Rightarrow> jsval \<Rightarrow> jsstring" where
  "evaluation_prompt qas resumeContext =
     (let context = (if \<not> truthy resumeContext \<or> \<not> is_string resumeContext
                        \<or> length (trim (string_value resumeContext)) = 0
                     then js ''No resume context was available for this evaluation.''
                     else string_value resumeContext);
          qaText = join (js ''\<newline>\<newline>'') (qa_lines qas 0)
      in evaluation_prompt_head @ qaText @ evaluation_prompt_context @ context
         @ evaluation_prompt_task @ digits_of (length qas) @ evaluation_prompt_tail)"

text \<open>
  The text-generation service is external: \<open>generateContent config prompt s\<close> is the
  response, or the error thrown, for the prompt in the state \<open>s\<close> of the world, with the
  state after the call. Of the response the source reads the text and the finish reason.
\<close>

record gen_config =
  temperature :: real
  maxOutputTokens :: nat

record gen_response =
  response_text :: jsstring
  finishReason :: "jsstring option"

text \<open>
  The call that \<open>evaluateAllAnswers\<close> hands to the retry wrapper:
  \<^verbatim>\<open>
  const result = await model.generateContent(prompt);
  const response = await result.response;
  const text = response.text();
  if (!text || text.trim().length === 0) {
    const finishReason = response?.candidates?.[0]?.finishReason;
    if (finishReason === 'SAFETY') {
      throw new Error('Evaluation response blocked due to safety filters.');
    } else if (finishReason === 'MAX_TOKENS') {
      throw new Error('Evaluation response exceeded maximum length.');
    }
    throw new Error('Empty evaluation response received from AI model');
  }
  return text;\<close>
\<close>

definition evaluation_call ::
  "(gen_config \<Rightarrow> jsstring \<Rightarrow> 's \<Rightarrow> (js_error + gen_response) \<times> 's) \<Rightarrow> jsstring \<Rightarrow> 's
     \<Rightarrow> (js_error + jsstring) \<times> 's" where
  "evaluation_call generateContent prompt s =
     (case generateContent \<lparr>temperature = 0.5, maxOutputTokens = 2048\<rparr> prompt s of
        (Inl error, s') \<Rightarrow> (Inl error, s')
      | (Inr response, s') \<Rightarrow>
          (let text = response_text response
           in if text = [] \<or> length (trim text) = 0 then
                (if finishReason response = Some (js ''SAFETY'') then
                   (Inl (Error (js ''Evaluation response blocked due to safety filters.'')), s')
                 else if finishReason response = Some (js ''MAX_TOKENS'') then
                   (Inl (Error (js ''Evaluation response exceeded maximum length.'')), s')
                 else (Inl (Error (js ''Empty evaluation response received from AI model'')), s'))
              else (Inr text, s')))"

definition missing_evaluation :: evaluation where
  "missing_evaluation =
     \<lparr>score = 1, relevanceScore = 1, correctnessScore = 1,
      feedback = js ''Evaluation for this question was missing in the AI response.''\<rparr>"

fun parse_loop :: "jsstring list \<Rightarrow> evaluation list \<Rightarrow> evaluation list" where
  "parse_loop [] evaluations = evaluations"
| "parse_loop (block # rest) evaluations = parse_loop rest (evaluations @ [parse_block block])"

function pad_loop :: "evaluation list \<Rightarrow> nat \<Rightarrow> evaluation list" where
  "pad_loop evaluations n =
     (if length evaluations < n then pad_loop (evaluations @ [missing_evaluation]) n
      else evaluations)"
  by pat_completeness auto
termination
  by (relation "measure (\<lambda>(evaluations, n). n - length evaluations)") auto

declare pad_loop.simps [simp del]

text \<open>\<^verbatim>\<open>evaluationText.split(/Question\s+\d+:/i).filter(block => block.trim())\<close>\<close>

definition response_blocks :: "jsstring \<Rightarrow> jsstring list" where
  "response_blocks evaluationText = filter (\<lambda>block. trim block \<noteq> []) (split_question evaluationText [])"

text \<open>
  The body of the \<^verbatim>\<open>try\<close> block of \<open>evaluateAllAnswers\<close>: its result is the list it returns
  or the error it throws.
  \<^verbatim>\<open>
  if (!Array.isArray(questionsAndAnswers) || questionsAndAnswers.length === 0) {
    throw new Error('Must provide a non-empty array of questions and answers for evaluation');
  }
  questionsAndAnswers.forEach(...);
  ...
  const evaluationText = await retryWithBackoff(async () => { ... });
  const evaluations = [];
  const questionBlocks = evaluationText.split(/Question\s+\d+:/i).filter(block => block.trim());
  if (questionBlocks.length === 0) {
    throw new Error('Failed to parse evaluation response format. Unexpected AI output.');
  }
  for (let i = 0; i < questionBlocks.length; i++) { ... }
  while (evaluations.length < questionsAndAnswers.length) {
    evaluations.push({ score: 1, relevanceScore: 1, correctnessScore: 1,
      feedback: 'Evaluation for this question was missing in the AI response.' });
  }
  if (evaluations.length > questionsAndAnswers.length) {
    evaluations.length = questionsAndAnswers.length;
  }
  return evaluations;\<close>
\<close>

definition evaluateAllAnswers_try ::
  "(gen_config \<Rightarrow> jsstring \<Rightarrow> 's \<Rightarrow> (js_error + gen_response) \<times> 's) \<Rightarrow> jsval \<Rightarrow> jsval \<Rightarrow> 's
     \<Rightarrow> (js_error + evaluation list) \<times> 's" where
  "evaluateAllAnswers_try generateContent questionsAndAnswers resumeContext s =
     (case questionsAndAnswers of
        Array qas \<Rightarrow>
          if qas = [] then
            (Inl (Error (js ''Must provide a non-empty array of questions and answers for evaluation'')), s)
          else
            (case validate_pairs qas 0 of
               Some error \<Rightarrow> (Inl error, s)
             | None \<Rightarrow>
                 (let prompt = evaluation_prompt qas resumeContext;
                      run = retryWithBackoff (evaluation_call generateContent prompt) MAX_RETRIES s
                  in case outcome run of
                       Inl error \<Rightarrow> (Inl error, world run)
                     | Inr evaluationText \<Rightarrow>
                         (let questionBlocks = response_blocks evaluationText
                          in if questionBlocks = [] then
                               (Inl (Error (js ''Failed to parse evaluation response format. Unexpected AI output.'')),
                                world run)
                             else
                               (let evaluations = parse_loop questionBlocks [];
                                    padded = pad_loop evaluations (length qas);
                                    trimmed = (if length qas < length padded
                                               then take (length qas) padded else padded)
                                in (Inr trimmed, world run)))))
      | _ \<Rightarrow>
          (Inl (Error (js ''Must provide a non-empty array of questions and answers for evaluation'')), s))"

text \<open>
  The handler of the \<^verbatim>\<open>catch\<close> block:
  \<^verbatim>\<open>
  } catch (error) {
    return questionsAndAnswers.map((qa, index) => ({
      score: 1, relevanceScore: 1, correctnessScore: 1,
      feedback: `A critical error occurred during evaluation: ${error.message}. Unable to provide feedback for question ${index + 1}.`
    }));
  }\<close>
  When \<^verbatim>\<open>questionsAndAnswers\<close> is not an array the call of \<^verbatim>\<open>map\<close> in the handler throws a
  TypeError, which is then the result of \<open>evaluateAllAnswers\<close>.
\<close>

definition message_text :: "js_error \<Rightarrow> jsstring" where
  "message_text error = (case message error of Some m \<Rightarrow> m | None \<Rightarrow> js ''undefined'')"

fun fallback_evaluations :: "jsval list \<Rightarrow> js_error \<Rightarrow> nat \<Rightarrow> evaluation list" where
  "fallback_evaluations [] error index = []"
| "fallback_evaluations (qa # rest) error index =
     \<lparr>score = 1, relevanceScore = 1, correctnessScore = 1,
      feedback = js ''A critical error occurred during evaluation: '' @ message_text error
                 @ js ''. Unable to provide feedback for question '' @ digits_of (index + 1) @ js ''.''\<rparr>
     # fallback_evaluations rest error (index + 1)"

definition evaluateAllAnswers ::
  "(gen_config \<Rightarrow> jsstring \<Rightarrow> 's \<Rightarrow> (js_error + gen_response) \<times> 's) \<Rightarrow> jsval \<Rightarrow> jsval \<Rightarrow> 's
     \<Rightarrow> (js_error + evaluation list) \<times> 's" where
  "evaluateAllAnswers generateContent questionsAndAnswers resumeContext s =
     (case evaluateAllAnswers_try generateContent questionsAndAnswers resumeContext s of
        (Inr evaluations, s') \<Rightarrow> (Inr evaluations, s')
      | (Inl error, s') \<Rightarrow>
          (case questionsAndAnswers of
             Array qas \<Rightarrow> (Inr (fallback_evaluations qas error 0), s')
           | Undefined \<Rightarrow>
               (Inl (Error (js ''Cannot read properties of undefined (reading 'map')'')), s')
           | Null \<Rightarrow> (Inl (Error (js ''Cannot read properties of null (reading 'map')'')), s')
           | _ \<Rightarrow> (Inl (Error (js ''questionsAndAnswers.map is not a function'')), s')))"

text \<open>
  The vocabulary of the evaluator's specification: an entry with a string question and a
  string answer, and an evaluation whose three scores lie between 1 and 10.
\<close>

definition qa_pair :: "jsval \<Rightarrow> bool" where
  "qa_pair qa \<longleftrightarrow> is_string (get_prop qa (js ''question'')) \<and> is_string (get_prop qa (js ''answer''))"

definition scores_in_range :: "evaluation \<Rightarrow> bool" where
  "scores_in_range e \<longleftrightarrow>
     1 \<le> relevanceScore e \<and> relevanceScore e \<le> 10
     \<and> 1 \<le> correctnessScore e \<and> correctnessScore e \<le> 10
     \<and> 1 \<le> score e \<and> score e \<le> 10"

text \<open>
  A sample generation service that answers every prompt with the given text, and a sample
  list of two question and answer pairs.
\<close>

definition sample_generator ::
  "jsstring \<Rightarrow> gen_config \<Rightarrow> jsstring \<Rightarrow> nat \<Rightarrow> (js_error + gen_response) \<times> nat" where
  "sample_generator reply config prompt calls =
     (Inr \<lparr>response_text = reply, finishReason = Some (js ''STOP'')\<rparr>, calls + 1)"

definition sample_pairs :: "jsval list" where
  "sample_pairs =
     [Object [(js ''question'', String (js ''What is a closure?'')), (js ''answer'', String (js ''A function with its scope.''))],
      Object [(js ''question'', String (js ''Describe a conflict.'')), (js ''answer'', String [])]]"


subsection \<open>Cosine similarity and chunk retrieval\<close>

text \<open>
  \<^verbatim>\<open>typeof n === 'number'\<close>, the number behind a value, and the elements of an array.
\<close>

fun is_number :: "jsval \<Rightarrow> bool" where
  "is_number (Number n) = True"
| "is_number v = False"

fun number_value :: "jsval \<Rightarrow> jsnum" where
  "number_value (Number n) = n"
| "number_value v = NaN"

fun array_items :: "jsval \<Rightarrow> jsval list" where
  "array_items (Array xs) = xs"
| "array_items v = []"

text \<open>
  \<^verbatim>\<open>
  exports.cosineSimilarity = (vecA, vecB) => {
     if (!Array.isArray(vecA) || !Array.isArray(vecB)) {
        return 0;
     }
    if (vecA.length === 0 || vecA.length !== vecB.length) {
      throw new Error(`Invalid vectors for similarity calculation: lengths differ or vector
                       is empty (A: ${vecA.length}, B: ${vecB.length})`);
    }
    if (!vecA.every(n => typeof n === 'number') || !vecB.every(n => typeof n === 'number')) {
        throw new Error('Invalid vectors: elements must be numbers.');
    }
    const dotProduct = vecA.reduce((sum, a, i) => sum + a * vecB[i], 0);
    const magnitudeA = Math.sqrt(vecA.reduce((sum, a) => sum + a * a, 0));
    const magnitudeB = Math.sqrt(vecB.reduce((sum, b) => sum + b * b, 0));
    if (magnitudeA === 0 || magnitudeB === 0) {
      return 0;
    }
    const similarity = dotProduct / (magnitudeA * magnitudeB);
    return Math.max(-1, Math.min(1, similarity));
  };\<close>
  The two throws are the \<open>Inl\<close> results. The reductions run from the left with the initial
  value 0, every operation rounding to a double; the vectors have the same length where the dot
  product is computed, so that \<^verbatim>\<open>vecB[i]\<close> is always an element.
\<close>

definition cosineSimilarity :: "jsval \<Rightarrow> jsval \<Rightarrow> js_error + jsnum" where
  "cosineSimilarity vecA vecB =
     (if \<not> is_array vecA \<or> \<not> is_array vecB then Inr (Fin 0)
      else if array_length vecA = 0 \<or> array_length vecA \<noteq> array_length vecB then
        Inl (Error (js ''Invalid vectors for similarity calculation: lengths differ or vector is empty (A: ''
                    @ digits_of (array_length vecA) @ js '', B: '' @ digits_of (array_length vecB)
                    @ js '')''))
      else if \<not> list_all is_number (array_items vecA) \<or> \<not> list_all is_number (array_items vecB) then
        Inl (Error (js ''Invalid vectors: elements must be numbers.''))
      else
        (let as = map number_value (array_items vecA);
             bs = map number_value (array_items vecB);
             dotProduct = foldl (\<lambda>sum (a, b). js_add sum (js_mul a b)) (Fin 0) (zip as bs);
             magnitudeA = js_sqrt (foldl (\<lambda>sum a. js_add sum (js_mul a a)) (Fin 0) as);
             magnitudeB = js_sqrt (foldl (\<lambda>sum b. js_add sum (js_mul b b)) (Fin 0) bs)
         in if magnitudeA = Fin 0 \<or> magnitudeB = Fin 0 then Inr (Fin 0)
            else (let similarity = js_div dotProduct (js_mul magnitudeA magnitudeB)
                  in Inr (js_max (Fin (- 1)) (js_min (Fin 1) similarity)))))"

text \<open>
  An entry of the result of \<^verbatim>\<open>findSimilarChunks\<close>: \<^verbatim>\<open>{ index, chunk, similarity }\<close>.
\<close>

record similar_chunk =
  index :: nat
  chunk :: jsval
  similarity :: jsnum

text \<open>\<^verbatim>\<open>typeof chunk === 'object'\<close> holds of objects, arrays and \<^verbatim>\<open>null\<close>.\<close>

fun typeof_object :: "jsval \<Rightarrow> bool" where
  "typeof_object (Object ps) = True"
| "typeof_object (Array xs) = True"
| "typeof_object Null = True"
| "typeof_object v = False"

text \<open>
  The function mapped over the chunks, \<open>None\<close> for the \<^verbatim>\<open>null\<close> that marks a skipped chunk:
  \<^verbatim>\<open>
  .map((chunk, index) => {
      if (!chunk || typeof chunk !== 'object' || !chunk.embedding ||
          !Array.isArray(chunk.embedding)) {
          return null;
      }
      try {
        const similarityScore = exports.cosineSimilarity(queryEmbedding, chunk.embedding);
        return { index, chunk, similarity: similarityScore };
      } catch (similarityError) {
         return null;
      }
  })\<close>
\<close>

definition score_chunk :: "jsval \<Rightarrow> jsval \<times> nat \<Rightarrow> similar_chunk option" where
  "score_chunk queryEmbedding ci =
     (case ci of (c, i) \<Rightarrow>
        if \<not> truthy c \<or> \<not> typeof_object c \<or> \<not> truthy (get_prop c (js ''embedding''))
           \<or> \<not> is_array (get_prop c (js ''embedding''))
        then None
        else (case cosineSimilarity queryEmbedding (get_prop c (js ''embedding'')) of
                Inr similarityScore \<Rightarrow> Some \<lparr>index = i, chunk = c, similarity = similarityScore\<rparr>
              | Inl similarityError \<Rightarrow> None))"

text \<open>
  \<^verbatim>\<open>Array.prototype.sort\<close> with a comparator is stable: an element is moved behind another one only
  when the comparator, called on the two, is positive. \<open>js_sort\<close> is the insertion sort with
  that property.
\<close>

fun insert_sorted :: "('a \<Rightarrow> 'a \<Rightarrow> jsnum) \<Rightarrow> 'a \<Rightarrow> 'a list \<Rightarrow> 'a list" where
  "insert_sorted cmp x [] = [x]"
| "insert_sorted cmp x (y # ys) =
     (if js_less (Fin 0) (cmp x y) then y # insert_sorted cmp x ys else x # y # ys)"

definition js_sort :: "('a \<Rightarrow> 'a \<Rightarrow> jsnum) \<Rightarrow> 'a list \<Rightarrow> 'a list" where
  "js_sort cmp xs = foldr (insert_sorted cmp) xs []"

text \<open>
  \<^verbatim>\<open>
  if (typeof topK !== 'number' || !Number.isInteger(topK) || topK < 1) {
      topK = 3;
  }\<close>
  An argument that is left out is \<^verbatim>\<open>undefined\<close> and takes the default 3 as well.
\<close>

definition effective_topK :: "jsval \<Rightarrow> nat" where
  "effective_topK topK =
     (case topK of
        Number (Fin k) \<Rightarrow> if of_int \<lfloor>k\<rfloor> = k \<and> 1 \<le> k then nat \<lfloor>k\<rfloor> else 3
      | _ \<Rightarrow> 3)"

text \<open>
  \<^verbatim>\<open>
  exports.findSimilarChunks = (queryEmbedding, chunks, topK = 3) => {
    if (!queryEmbedding || !Array.isArray(queryEmbedding) || queryEmbedding.length === 0) {
        return [];
    }
    if (!Array.isArray(chunks) || chunks.length === 0) {
      return [];
    }
    ...
    try {
      const similarities = chunks
        .map(...)
        .filter(item => item !== null && typeof item.similarity === 'number' &&
                        !isNaN(item.similarity));
      return similarities
        .sort((a, b) => b.similarity - a.similarity)
        .slice(0, topK);
    } catch (error) {
      return [];
    }
  };\<close>
  Nothing inside the outer \<^verbatim>\<open>try\<close> throws (the inner one catches what \<^verbatim>\<open>cosineSimilarity\<close>
  throws), so its handler is never entered. The similarity of an entry is always a number, as
  \<^verbatim>\<open>cosineSimilarity\<close> returns nothing else.
\<close>

definition findSimilarChunks :: "jsval \<Rightarrow> jsval \<Rightarrow> jsval \<Rightarrow> similar_chunk list" where
  "findSimilarChunks queryEmbedding chunks topK =
     (if \<not> truthy queryEmbedding \<or> \<not> is_array queryEmbedding \<or> array_length queryEmbedding = 0
      then []
      else if \<not> is_array chunks \<or> array_length chunks = 0 then []
      else
        (let k = effective_topK topK;
             items = map (score_chunk queryEmbedding)
                       (zip (array_items chunks) [0..<array_length chunks]);
             similarities = filter (\<lambda>item. similarity item \<noteq> NaN) (List.map_filter (\<lambda>item. item) items)
         in take k (js_sort (\<lambda>a b. js_sub (similarity b) (similarity a)) similarities)))"

text \<open>
  The chunks that count as valid, the number that an entry is ranked by, and the entries whose
  similarity is a finite double.
\<close>

definition valid_chunk :: "jsval \<Rightarrow> bool" where
  "valid_chunk c \<longleftrightarrow>
     truthy c \<and> typeof_object c \<and> truthy (get_prop c (js ''embedding''))
     \<and> is_array (get_prop c (js ''embedding''))"

definition ranked_value :: "similar_chunk \<Rightarrow> real" where
  "ranked_value x = (case similarity x of Fin a \<Rightarrow> a | _ \<Rightarrow> 0)"

definition comparable :: "similar_chunk \<Rightarrow> bool" where
  "comparable x \<longleftrightarrow> (\<exists>a. similarity x = Fin a \<and> on_grid a)"

text \<open>A chunk list with two structurally invalid chunks and one of the wrong dimension.\<close>

definition sample_chunks :: jsval where
  "sample_chunks = Array
     [Object [(js ''text'', String (js ''a'')), (js ''embedding'', Array [Number (Fin 0), Number (Fin 1)])],
      Null,
      Object [(js ''text'', String (js ''c'')), (js ''embedding'', String (js ''x''))],
      Object [(js ''text'', String (js ''d'')), (js ''embedding'', Array [Number (Fin 2), Number (Fin 0)])],
      Object [(js ''text'', String (js ''e'')),
              (js ''embedding'', Array [Number (Fin 1), Number (Fin 2), Number (Fin 3)])],
      Object [(js ''text'', String (js ''f'')), (js ''embedding'', Array [Number (Fin (- 1)), Number (Fin 0)])],
      Object [(js ''text'', String (js ''g'')), (js ''embedding'', Array [Number (Fin 1), Number (Fin 0)])]]"

subsection \<open>Final scores of an interview\<close>

text \<open>
  The fields of a transcript message and of a chat that \<^verbatim>\<open>calculateFinalScores\<close> reads and
  writes; a field that is not set is \<^verbatim>\<open>undefined\<close>.
\<close>

record message =
  role :: jsstring
  content :: jsstring
  message_score :: jsval
  message_relevanceScore :: jsval
  message_correctnessScore :: jsval



text \<open>
  \<^verbatim>\<open>parseFloat(x.toFixed(1))\<close>: \<^verbatim>\<open>toFixed(1)\<close> prints the integer \<open>n\<close> for which \<open>n / 10\<close> is closest to
  \<open>x\<close> (the larger one if there are two) with one decimal, \<^verbatim>\<open>parseFloat\<close> reads the decimal as
  the nearest double. From \<open>10\<^sup>2\<^sup>1\<close> on, and for \<^verbatim>\<open>NaN\<close> and the infinities, \<^verbatim>\<open>toFixed\<close> prints the
  number itself.
\<close>

fun toFixed1 :: "jsnum \<Rightarrow> jsnum" where
  "toFixed1 (Fin x) =
     (if 10 ^ 21 \<le> \<bar>x\<bar> then Fin x
      else round_double (sgn x * of_int \<lfloor>\<bar>x\<bar> * 10 + 1 / 2\<rfloor> / 10))"
| "toFixed1 n = n"


text \<open>
  The messages that the specification selects, the mean of a list of doubles as the code
  computes it (a sum from the left, then one division), and a transcript for the example.
\<close>

definition scored :: "message \<Rightarrow> bool" where
  "scored msg \<longleftrightarrow> role msg = js ''assistant'' \<and> is_number (message_relevanceScore msg)
                   \<and> is_number (message_correctnessScore msg)"



section \<open>Properties\<close>

subsection \<open>The text chunker\<close>

lemma chunk_loop_windows:
  assumes "0 < n"
  shows "chunk_loop ws n i acc =
         Some (acc @ filter (\<lambda>c. 50 < length c) (map (\<lambda>w. trim (join [32] w)) (windows n (drop i ws))))"
proof (induction "length ws - i" arbitrary: i acc rule: less_induct)
  case less
  show ?case
  proof (cases "i < length ws")
    case True
    then have ne: "drop i ws \<noteq> []" by simp
    have lt: "length ws - (i + n) < length ws - i" using True assms by arith
    have w: "windows n (drop i ws) = take n (drop i ws) # windows n (drop (i + n) ws)"
      using ne assms by (subst windows.simps) (simp add: add.commute)
    show ?thesis
      using True less[OF lt] w
      by (subst chunk_loop.simps) (simp add: slice_def Let_def)
  next
    case False
    then have "drop i ws = []" by simp
    then show ?thesis using False
      by (subst chunk_loop.simps) (simp add: windows.simps)
  qed
qed


lemma is_space_32 [simp]: "is_space 32" by (simp add: is_space_def)
lemma is_space_10 [simp]: "is_space 10" by (simp add: is_space_def)

lemma replace_plus_id: "\<forall>c\<in>set s. \<not> P c \<Longrightarrow> replace_plus P r s = s"
  by (induction s) auto

lemma replace_plus_spaces:
  "c \<in> set (replace_plus is_space [32] s) \<Longrightarrow> is_space c \<Longrightarrow> c = 32"
proof (induction is_space "[32::nat]" s rule: replace_plus.induct)
  case 1
  then show ?case by simp
next
  case (2 c cs)
  then show ?case by (auto split: if_splits)
qed

lemma replace_plus_length: "length (replace_plus P [r] s) \<le> length s"
proof (induction P "[r]" s rule: replace_plus.induct)
  case (1 P)
  then show ?case by simp
next
  case (2 P c cs)
  have "length (dropWhile P cs) \<le> length cs" by (rule length_dropWhile_le)
  with 2 show ?case by (auto split: if_splits)
qed

lemma replace_plus_hd:
  "s \<noteq> [] \<Longrightarrow> \<not> P (hd s) \<Longrightarrow> replace_plus P r s = hd s # replace_plus P r (tl s)"
  by (cases s) auto

lemma sublist_32_Cons:
  "sublist [32, 32] (a # s) \<longleftrightarrow> (a = 32 \<and> s \<noteq> [] \<and> hd s = (32::nat)) \<or> sublist [32, 32] s"
  by (cases s) (auto simp: sublist_Cons_right)

lemma replace_plus_no_double:
  "\<not> sublist [32, 32] (replace_plus is_space [32] s)"
proof (induction is_space "[32::nat]" s rule: replace_plus.induct)
  case 1
  then show ?case by simp
next
  case (2 c cs)
  show ?case
  proof (cases "is_space c")
    case True
    let ?rest = "dropWhile is_space cs"
    have hdr: "replace_plus is_space [32] ?rest \<noteq> [] \<Longrightarrow>
               hd (replace_plus is_space [32] ?rest) \<noteq> 32"
    proof (cases ?rest)
      case Nil
      then show "replace_plus is_space [32] ?rest \<noteq> [] \<Longrightarrow> ?thesis" by simp
    next
      case (Cons d ds)
      then have "\<not> is_space d" by (metis hd_dropWhile list.sel(1) list.distinct(1))
      then show ?thesis using Cons by auto
    qed
    from True 2 hdr show ?thesis by (auto simp: sublist_32_Cons)
  next
    case False
    then have "c \<noteq> 32" by auto
    with False 2 show ?thesis by (auto simp: sublist_32_Cons)
  qed
qed

lemma trim_sublist: "sublist (trim s) s"
proof -
  have "sublist (dropWhile is_space (rev (dropWhile is_space s))) (rev (dropWhile is_space s))"
    by (metis sublist_def takeWhile_dropWhile_id append_Nil2)
  then have "sublist (trim s) (dropWhile is_space s)"
    unfolding trim_def by (metis sublist_rev rev_rev_ident)
  moreover have "sublist (dropWhile is_space s) s"
    by (metis sublist_def takeWhile_dropWhile_id append_Nil2)
  ultimately show ?thesis by (rule sublist_order.order_trans)
qed

lemma trim_set: "set (trim s) \<subseteq> set s"
  using trim_sublist set_mono_sublist by blast

lemma trim_length: "length (trim s) \<le> length s"
  using trim_sublist sublist_length_le by blast

lemma trim_ends:
  "trim s \<noteq> [] \<Longrightarrow> \<not> is_space (hd (trim s)) \<and> \<not> is_space (last (trim s))"
proof -
  assume ne: "trim s \<noteq> []"
  let ?a = "dropWhile is_space s"
  let ?b = "dropWhile is_space (rev ?a)"
  from ne have bne: "?b \<noteq> []" by (simp add: trim_def)
  then have l: "\<not> is_space (hd ?b)" by (rule hd_dropWhile)
  have "last (trim s) = hd ?b" using bne by (simp add: trim_def last_rev)
  with l have 1: "\<not> is_space (last (trim s))" by simp
  from bne have ane: "?a \<noteq> []" by (cases ?a) auto
  then have ha: "\<not> is_space (hd ?a)" by (rule hd_dropWhile)
  then have "\<not> is_space (last (rev ?a))" using ane by (simp add: last_rev)
  have "hd (trim s) = last ?b" using bne by (simp add: trim_def hd_rev)
  also have "last ?b = last (rev ?a)"
    by (metis bne last_appendR takeWhile_dropWhile_id)
  also have "\<dots> = hd ?a" using ane by (simp add: last_rev)
  finally show ?thesis using ha 1 by simp
qed

lemma trim_id: "s \<noteq> [] \<Longrightarrow> \<not> is_space (hd s) \<Longrightarrow> \<not> is_space (last s) \<Longrightarrow> trim s = s"
proof -
  assume a: "s \<noteq> []" "\<not> is_space (hd s)" "\<not> is_space (last s)"
  then have 1: "dropWhile is_space s = s" by (cases s) auto
  from a have "rev s \<noteq> []" "\<not> is_space (hd (rev s))" by (auto simp: hd_rev)
  then have 2: "dropWhile is_space (rev s) = rev s" by (cases "rev s") auto
  show ?thesis by (simp add: trim_def 1 2)
qed


lemma split_on_ne [simp]: "split_on sep s \<noteq> []"
  by (induction s) (auto split: list.splits)

lemma split_on_Cons_sep [simp]: "split_on sep (sep # cs) = [] # split_on sep cs"
  by simp

lemma split_on_Cons_other [simp]:
  "c \<noteq> sep \<Longrightarrow> split_on sep (c # cs) = (c # hd (split_on sep cs)) # tl (split_on sep cs)"
  by (cases "split_on sep cs") auto

declare split_on.simps(2) [simp del]

lemma split_hd_empty: "hd (split_on sep s) = [] \<longleftrightarrow> s = [] \<or> hd s = sep"
proof (cases s)
  case Nil
  then show ?thesis by simp
next
  case (Cons a list)
  then show ?thesis by (cases "a = sep") auto
qed

lemma split_tl_empty:
  "[] \<in> set (tl (split_on 32 s)) \<Longrightarrow> s \<noteq> [] \<and> (last s = 32 \<or> sublist [32, 32] s)"
proof (induction s)
  case Nil
  then show ?case by simp
next
  case (Cons c cs)
  show ?case
  proof (cases "c = 32")
    case True
    with Cons.prems have "[] \<in> set (split_on 32 cs)" by simp
    then have "hd (split_on 32 cs) = [] \<or> [] \<in> set (tl (split_on 32 cs))"
      by (cases "split_on 32 cs") auto
    then show ?thesis
    proof
      assume "hd (split_on 32 cs) = []"
      then have "cs = [] \<or> hd cs = 32" by (simp add: split_hd_empty)
      with True show ?thesis by (auto simp: sublist_32_Cons)
    next
      assume "[] \<in> set (tl (split_on 32 cs))"
      with Cons.IH True show ?thesis by (auto simp: sublist_32_Cons)
    qed
  next
    case False
    with Cons.prems have "[] \<in> set (tl (split_on 32 cs))"
      by (simp add: split_on_Cons_other)
    with Cons.IH show ?thesis by (auto simp: sublist_32_Cons)
  qed
qed

lemma split_on_no_sep: "w \<in> set (split_on sep s) \<Longrightarrow> c \<in> set w \<Longrightarrow> c \<in> set s \<and> c \<noteq> sep"
proof (induction s arbitrary: w)
  case Nil
  then show ?case by simp
next
  case (Cons d ds)
  show ?case
  proof (cases "d = sep")
    case True
    with Cons show ?thesis by auto
  next
    case False
    from Cons.prems(1) False have "w = d # hd (split_on sep ds) \<or> w \<in> set (tl (split_on sep ds))"
      by (simp add: split_on_Cons_other)
    then show ?thesis
    proof
      assume w: "w = d # hd (split_on sep ds)"
      have "hd (split_on sep ds) \<in> set (split_on sep ds)" by simp
      with Cons.IH[of "hd (split_on sep ds)"] Cons.prems(2) w False show ?thesis by auto
    next
      assume "w \<in> set (tl (split_on sep ds))"
      then have "w \<in> set (split_on sep ds)" by (metis list.set_sel(2) split_on_ne)
      with Cons.IH[of w] Cons.prems(2) show ?thesis by auto
    qed
  qed
qed

lemma join_Cons: "ws \<noteq> [] \<Longrightarrow> join sep (w # ws) = w @ sep @ join sep ws"
  by (cases ws) auto

lemma join_split: "join [sep] (split_on sep s) = s"
proof (induction s)
  case Nil
  then show ?case by simp
next
  case (Cons c cs)
  show ?case
  proof (cases "c = sep")
    case True
    with Cons show ?thesis by (simp add: join_Cons)
  next
    case False
    obtain w ws where r: "split_on sep cs = w # ws" by (cases "split_on sep cs") auto
    with Cons have "join [sep] (w # ws) = cs" by simp
    then have "join [sep] ((c # w) # ws) = c # cs" by (cases ws) auto
    with False r show ?thesis by simp
  qed
qed

lemma split_on_plain: "sep \<notin> set w \<Longrightarrow> split_on sep w = [w]"
  by (induction w) auto

lemma split_on_append: "sep \<notin> set w \<Longrightarrow> split_on sep (w @ sep # r) = w # split_on sep r"
  by (induction w) auto

lemma split_join:
  "ws \<noteq> [] \<Longrightarrow> \<forall>w\<in>set ws. sep \<notin> set w \<Longrightarrow> split_on sep (join [sep] ws) = ws"
proof (induction ws)
  case Nil
  then show ?case by simp
next
  case (Cons w ws)
  show ?case
  proof (cases ws)
    case Nil
    with Cons.prems show ?thesis by (simp add: split_on_plain)
  next
    case (Cons v vs)
    with Cons.prems Cons.IH show ?thesis by (simp add: split_on_append)
  qed
qed

lemma join_hd: "ws \<noteq> [] \<Longrightarrow> hd ws \<noteq> [] \<Longrightarrow> join sep ws \<noteq> [] \<and> hd (join sep ws) = hd (hd ws)"
proof (cases ws)
  case Nil
  then show "ws \<noteq> [] \<Longrightarrow> ?thesis" by simp
next
  case (Cons w vs)
  then show "hd ws \<noteq> [] \<Longrightarrow> ?thesis" by (cases vs) auto
qed

lemma join_last:
  "ws \<noteq> [] \<Longrightarrow> last ws \<noteq> [] \<Longrightarrow> join sep ws \<noteq> [] \<and> last (join sep ws) = last (last ws)"
  by (induction sep ws rule: join.induct) auto

lemma windows_concat: "0 < n \<Longrightarrow> concat (windows n xs) = xs"
proof (induction n xs rule: windows.induct)
  case (1 n xs)
  then show ?case by (subst windows.simps) auto
qed

lemma windows_member:
  "w \<in> set (windows n xs) \<Longrightarrow> w \<noteq> [] \<and> (\<exists>k. w = take n (drop k xs))"
proof (induction n xs rule: windows.induct)
  case (1 n xs)
  show ?case
  proof (cases "n = 0 \<or> xs = []")
    case True
    with 1 show ?thesis by (simp add: windows.simps)
  next
    case False
    with "1.prems" have "w = take n xs \<or> w \<in> set (windows n (drop n xs))"
      by (subst (asm) windows.simps) auto
    then show ?thesis
    proof
      assume "w = take n xs"
      with False show ?thesis by (auto intro: exI[of _ 0])
    next
      assume "w \<in> set (windows n (drop n xs))"
      with "1.IH" False obtain k where "w \<noteq> []" "w = take n (drop k (drop n xs))" by auto
      then show ?thesis by (auto simp: intro: exI[of _ "k + n"])
    qed
  qed
qed

lemma sum_list_filter_split:
  "sum_list (map f xs) = sum_list (map f (filter P xs)) + sum_list (map f (filter (\<lambda>x. \<not> P x) xs))"
  for f :: "'a \<Rightarrow> nat"
  by (induction xs) auto


lemma input_words_no_space:
  assumes "w \<in> set (input_words text)" "c \<in> set w"
  shows "\<not> is_space c"
proof
  assume sp: "is_space c"
  from assms have "c \<in> set (trim (replace_plus is_space [32] text))" "c \<noteq> 32"
    using split_on_no_sep unfolding input_words_def by blast+
  then have "c \<in> set (replace_plus is_space [32] text)" using trim_set by blast
  then have "c = 32" using sp by (rule replace_plus_spaces)
  with \<open>c \<noteq> 32\<close> show False by simp
qed

lemma input_words_nonempty:
  assumes "trim (replace_plus is_space [32] text) \<noteq> []"
  shows "[] \<notin> set (input_words text)"
proof
  let ?s = "trim (replace_plus is_space [32] text)"
  assume "[] \<in> set (input_words text)"
  then have "hd (split_on 32 ?s) = [] \<or> [] \<in> set (tl (split_on 32 ?s))"
    unfolding input_words_def by (cases "split_on 32 ?s") auto
  then have "hd ?s = 32 \<or> last ?s = 32 \<or> sublist [32, 32] ?s"
    using assms split_hd_empty[of 32 "?s"] split_tl_empty[of "?s"] by auto
  moreover have "\<not> is_space (hd ?s)" "\<not> is_space (last ?s)"
    using trim_ends[OF assms] by auto
  moreover have "\<not> sublist [32, 32] ?s"
    using replace_plus_no_double[of "text"] trim_sublist[of "replace_plus is_space [32] text"]
      sublist_order.order_trans by blast
  ultimately show False by auto
qed

lemma input_words_empty:
  "trim (replace_plus is_space [32] text) = [] \<Longrightarrow> input_words text = [[]]"
  by (simp add: input_words_def)

lemma kept_window:
  assumes w: "w \<in> set (windows n (input_words text))"
    and k: "50 < length (trim (join [32] w))"
  shows "trim (join [32] w) = join [32] w \<and> split_on 32 (join [32] w) = w"
proof -
  from windows_member[OF w] obtain k where wne: "w \<noteq> []" and wk: "w = take n (drop k (input_words text))"
    by blast
  have sub: "set w \<subseteq> set (input_words text)"
    by (metis wk set_take_subset set_drop_subset subset_trans)
  have cl: "trim (replace_plus is_space [32] text) \<noteq> []"
  proof
    assume "trim (replace_plus is_space [32] text) = []"
    then have "input_words text = [[]]" by (rule input_words_empty)
    with sub wne have "w = replicate (length w) []"
      by (metis (no_types, lifting) empty_set insert_absorb list.simps(15) replicate_eqI singleton_insert_inj_eq' subset_iff)
    then have "set (join [32] w) \<subseteq> {32}"
    proof (induction "[32::nat]" w rule: join.induct)
      case 1
      then show ?case by simp
    next
      case (2 w)
      then show ?case by simp
    next
      case (3 w v ws)
      then show ?case by auto
    qed
    then have "\<forall>x\<in>set (join [32] w). is_space x" by auto
    then have "dropWhile is_space (join [32] w) = []" by (simp only: dropWhile_eq_Nil_conv)
    then have "trim (join [32] w) = []" by (simp add: trim_def del: dropWhile_eq_Nil_conv)
    with k show False by simp
  qed
  have ne: "[] \<notin> set (input_words text)" using cl by (rule input_words_nonempty)
  from wne sub ne have h: "hd w \<noteq> []" "last w \<noteq> []"
    by (metis hd_in_set subsetD, metis last_in_set subsetD)
  have "\<not> is_space (hd (hd w))"
    using input_words_no_space[of "hd w" "text" "hd (hd w)"] wne sub h by (metis hd_in_set subsetD)
  moreover have "\<not> is_space (last (last w))"
    using input_words_no_space[of "last w" "text" "last (last w)"] wne sub h
    by (metis last_in_set subsetD)
  ultimately have "trim (join [32] w) = join [32] w"
    using join_hd[OF wne h(1), of "[32]"] join_last[OF wne h(2), of "[32]"]
    by (intro trim_id) auto
  moreover have "\<forall>x\<in>set w. 32 \<notin> set x"
    using input_words_no_space sub is_space_32 by blast
  then have "split_on 32 (join [32] w) = w" using wne by (intro split_join) auto
  ultimately show ?thesis by simp
qed

lemma chunkText_eq:
  assumes "0 < n"
  shows "chunkText text n =
         Some (filter (\<lambda>c. 50 < length c)
                 (map (\<lambda>w. trim (join [32] w)) (windows n (input_words text))))"
proof -
  have "\<forall>c\<in>set (replace_plus is_space [32] text). \<not> c = 10"
    using replace_plus_spaces is_space_10 by fastforce
  then have "replace_plus (\<lambda>c. c = 10) [10] (replace_plus is_space [32] text)
             = replace_plus is_space [32] text"
    by (rule replace_plus_id)
  then show ?thesis
    using chunk_loop_windows[OF assms, of "input_words text" 0 "[]"]
    by (simp add: chunkText_def input_words_def)
qed

text \<open>
  Claim C5. For every text and every \<open>wordsPerChunk \<ge> 1\<close>, \<open>chunkText\<close> returns. It collapses
  whitespace and splits the text into a word sequence (no word contains a whitespace
  character); it slices the words into consecutive windows of \<open>wordsPerChunk\<close> words, which
  put together in order give the word sequence again; the chunks are the windows, re-joined
  with single spaces, whose trimmed length exceeds 50 characters, all other windows being
  discarded; and the word counts of the chunks add up to the input word count minus the words
  of the discarded windows.
\<close>

theorem chunkText_lossless:
  assumes "1 \<le> wordsPerChunk"
  shows "\<exists>chunks. chunkText text wordsPerChunk = Some chunks
          \<and> (\<forall>w\<in>set (input_words text). \<forall>c\<in>set w. \<not> is_space c)
          \<and> concat (windows wordsPerChunk (input_words text)) = input_words text
          \<and> chunks = map (join [32]) (filter kept (windows wordsPerChunk (input_words text)))
          \<and> (\<Sum>c\<leftarrow>chunks. length (split_on 32 c))
              = length (input_words text)
                - (\<Sum>w\<leftarrow>filter (\<lambda>w. \<not> kept w) (windows wordsPerChunk (input_words text)). length w)"
proof -
  let ?ws = "input_words text"
  let ?wins = "windows wordsPerChunk ?ws"
  let ?chunks = "map (join [32]) (filter kept ?wins)"
  from assms have n: "0 < wordsPerChunk" by simp
  have "filter (\<lambda>c. 50 < length c) (map (\<lambda>w. trim (join [32] w)) ?wins)
        = map (\<lambda>w. trim (join [32] w)) (filter kept ?wins)"
    by (simp add: filter_map comp_def kept_def[abs_def])
  also have "\<dots> = ?chunks"
    by (rule map_cong) (auto simp: kept_def dest: kept_window)
  finally have 1: "chunkText text wordsPerChunk = Some ?chunks"
    using chunkText_eq[OF n] by simp
  have 2: "\<forall>w\<in>set ?ws. \<forall>c\<in>set w. \<not> is_space c"
    using input_words_no_space by blast
  have 3: "concat ?wins = ?ws" using n by (rule windows_concat)
  have "(\<Sum>c\<leftarrow>?chunks. length (split_on 32 c)) = (\<Sum>w\<leftarrow>filter kept ?wins. length (split_on 32 (join [32] w)))"
    by (simp add: comp_def)
  also have "\<dots> = (\<Sum>w\<leftarrow>filter kept ?wins. length w)"
    by (rule arg_cong[where f = sum_list], rule map_cong) (auto simp: kept_def dest: kept_window)
  finally have a: "(\<Sum>c\<leftarrow>?chunks. length (split_on 32 c)) = (\<Sum>w\<leftarrow>filter kept ?wins. length w)" .
  have "length ?ws = length (concat ?wins)" using 3 by simp
  also have "\<dots> = (\<Sum>w\<leftarrow>?wins. length w)" by (simp add: length_concat)
  also have "\<dots> = (\<Sum>w\<leftarrow>filter kept ?wins. length w) + (\<Sum>w\<leftarrow>filter (\<lambda>w. \<not> kept w) ?wins. length w)"
    by (rule sum_list_filter_split)
  finally have 4: "(\<Sum>c\<leftarrow>?chunks. length (split_on 32 c))
     = length ?ws - (\<Sum>w\<leftarrow>filter (\<lambda>w. \<not> kept w) ?wins. length w)"
    using a by simp
  from 1 2 3 4 show ?thesis by blast
qed


lemma join_length:
  "length (join [s] xs) = sum_list (map length xs) + (length xs - 1)"
  by (induction "[s]" xs rule: join.induct) auto

lemma join_take_drop_length:
  "length (join [s] (take n (drop k xs))) \<le> length (join [s] xs)"
proof -
  have "xs = take k xs @ take n (drop k xs) @ drop n (drop k xs)"
    by (simp only: append_take_drop_id)
  then have "sum_list (map length xs) = sum_list (map length (take k xs))
      + sum_list (map length (take n (drop k xs))) + sum_list (map length (drop n (drop k xs)))"
    by (metis add.assoc map_append sum_list_append)
  moreover have "length (take n (drop k xs)) \<le> length xs" by simp
  ultimately show ?thesis by (simp add: join_length)
qed

lemma chunk_length_le:
  assumes "w \<in> set (windows n (input_words text))"
  shows "length (trim (join [32] w)) \<le> length text"
proof -
  from windows_member[OF assms] obtain k where "w = take n (drop k (input_words text))" by blast
  then have "length (join [32] w) \<le> length (join [32] (input_words text))"
    by (simp add: join_take_drop_length)
  also have "\<dots> = length (trim (replace_plus is_space [32] text))"
    by (simp add: input_words_def join_split)
  also have "\<dots> \<le> length (replace_plus is_space [32] text)" by (rule trim_length)
  also have "\<dots> \<le> length text" by (rule replace_plus_length)
  finally show ?thesis using trim_length[of "join [32] w"] by simp
qed

lemma chunkText_short:
  assumes "0 < n" "length text \<le> 50"
  shows "chunkText text n = Some []"
proof -
  have "\<forall>w\<in>set (windows n (input_words text)). \<not> 50 < length (trim (join [32] w))"
    using chunk_length_le assms(2) by (metis le_trans not_less)
  then show ?thesis
    by (simp add: chunkText_eq[OF assms(1)] filter_empty_conv)
qed

lemma replace_plus_all_space:
  "\<forall>c\<in>set s. is_space c \<Longrightarrow> trim (replace_plus is_space [32] s) = []"
proof (cases s)
  case Nil
  then show ?thesis by (simp add: trim_def)
next
  case (Cons c cs)
  assume a: "\<forall>c\<in>set s. is_space c"
  with Cons have "dropWhile is_space cs = []" by simp
  with a Cons have "replace_plus is_space [32] s = [32]" by (simp del: dropWhile_eq_Nil_conv)
  then show ?thesis by (simp add: trim_def)
qed

lemma chunkText_blank:
  assumes "0 < n" "\<forall>c\<in>set text. is_space c"
  shows "chunkText text n = Some []"
proof -
  have "input_words text = [[]]"
    using replace_plus_all_space[OF assms(2)] by (rule input_words_empty)
  then have "windows n (input_words text) = [[[]]]"
    using assms(1) by (simp add: windows.simps)
  then show ?thesis
    by (simp add: chunkText_eq[OF assms(1)] trim_def)
qed

text \<open>
  Claim C7, as the code has it. For every \<open>wordsPerChunk \<ge> 1\<close>, \<open>chunkText\<close> raises nothing
  and returns a chunk list. The list is empty exactly when no window of \<open>wordsPerChunk\<close>
  consecutive words, re-joined with single spaces and trimmed, is longer than 50 characters;
  this is the case when the input is all whitespace and when it has at most 50 characters.
  It is the caller, \<open>uploadDocument\<close>, that turns an empty chunk list into a failure: it
  answers with status 400 and does not reach the embedding step.
\<close>

theorem chunkText_empty_not_error:
  "(1 \<le> n \<longrightarrow>
      (\<exists>chunks. chunkText text n = Some chunks)
      \<and> (chunkText text n = Some [] \<longleftrightarrow>
           (\<forall>w\<in>set (windows n (input_words text)). length (trim (join [32] w)) \<le> 50)))
   \<and> (1 \<le> n \<and> ((\<forall>c\<in>set text. is_space c) \<or> length text \<le> 50) \<longrightarrow> chunkText text n = Some [])
   \<and> (chunkText text 500 = Some [] \<longrightarrow>
        (\<exists>msg. uploadDocument_chunking text = Some (Respond 400 msg)))"
proof (intro conjI impI)
  assume "1 \<le> n"
  then have n: "0 < n" by simp
  show "\<exists>chunks. chunkText text n = Some chunks"
    using chunkText_eq[OF n] by blast
  show "chunkText text n = Some [] \<longleftrightarrow>
           (\<forall>w\<in>set (windows n (input_words text)). length (trim (join [32] w)) \<le> 50)"
    unfolding chunkText_eq[OF n] by (auto simp: filter_empty_conv not_less)
next
  assume "1 \<le> n \<and> ((\<forall>c\<in>set text. is_space c) \<or> length text \<le> 50)"
  then show "chunkText text n = Some []"
    using chunkText_blank[of n "text"] chunkText_short[of n "text"] by auto
next
  assume "chunkText text 500 = Some []"
  then show "\<exists>msg. uploadDocument_chunking text = Some (Respond 400 msg)"
    by (simp add: uploadDocument_chunking_def)
qed


lemmas chunk_eval = chunkText_def uploadDocument_chunking_def chunk_loop.simps Let_def
  slice_def trim_def is_space_def js_def split_on.simps(2)

text \<open>
  Claim C7 as stated fails: on a text of three spaces the chunk list is empty and \<open>chunkText\<close>
  returns it as an ordinary result.
\<close>

theorem chunkText_whitespace_returns_empty:
  "chunkText (js ''   '') 500 = Some []"
  by (simp add: chunk_eval del: split_on_Cons_other)

theorem chunkText_empty_not_error_witness:
  "(1::nat) \<le> 500 \<and> length (js ''too short'') \<le> 50
   \<and> chunkText (js ''too short'') 500 = Some []
   \<and> windows 500 (input_words (js ''a    b    c    d    e    f    g    h    i    j    k    l    m''))
       = [[js ''a'', js ''b'', js ''c'', js ''d'', js ''e'', js ''f'', js ''g'', js ''h'', js ''i'',
           js ''j'', js ''k'', js ''l'', js ''m'']]
   \<and> length (trim (join [32] [js ''a'', js ''b'', js ''c'', js ''d'', js ''e'', js ''f'', js ''g'',
                                js ''h'', js ''i'', js ''j'', js ''k'', js ''l'', js ''m''])) = 25
   \<and> chunkText (js ''a    b    c    d    e    f    g    h    i    j    k    l    m'') 500 = Some []
   \<and> uploadDocument_chunking (js ''a    b    c    d    e    f    g    h    i    j    k    l    m'')
       = Some (Respond 400 (js ''Text extracted, but failed to divide into valid chunks.''))"
proof -
  have a: "chunkText (js ''too short'') 500 = Some []"
    using chunkText_empty_not_error[of 500 "js ''too short''"] by (simp add: js_def)
  have w: "windows 500 (input_words (js ''a    b    c    d    e    f    g    h    i    j    k    l    m''))
       = [[js ''a'', js ''b'', js ''c'', js ''d'', js ''e'', js ''f'', js ''g'', js ''h'', js ''i'',
           js ''j'', js ''k'', js ''l'', js ''m'']]"
    by (simp add: input_words_def windows.simps trim_def is_space_def js_def split_on.simps(2)
        del: split_on_Cons_other)
  have l: "length (trim (join [32] [js ''a'', js ''b'', js ''c'', js ''d'', js ''e'', js ''f'', js ''g'',
                                js ''h'', js ''i'', js ''j'', js ''k'', js ''l'', js ''m''])) = 25"
    by (simp add: trim_def is_space_def js_def)
  have b: "chunkText (js ''a    b    c    d    e    f    g    h    i    j    k    l    m'') 500 = Some []"
    using chunkText_empty_not_error[of 500 "js ''a    b    c    d    e    f    g    h    i    j    k    l    m''"]
    unfolding w using l by simp
  have "\<exists>msg. uploadDocument_chunking (js ''a    b    c    d    e    f    g    h    i    j    k    l    m'')
         = Some (Respond 400 msg)"
    using chunkText_empty_not_error[of 500 "js ''a    b    c    d    e    f    g    h    i    j    k    l    m''"] b
    by blast
  then have c: "uploadDocument_chunking (js ''a    b    c    d    e    f    g    h    i    j    k    l    m'')
       = Some (Respond 400 (js ''Text extracted, but failed to divide into valid chunks.''))"
    using b by (simp add: uploadDocument_chunking_def trim_def is_space_def js_def)
  from a w l b c show ?thesis by (simp add: js_def)
qed

theorem chunkText_lossless_witness:
  "(1::nat) \<le> 12 \<and>
   chunkText (js ''  The quick  brown fox jumps over the lazy dog and then keeps running through the forest until night '') 12
     = Some [js ''The quick brown fox jumps over the lazy dog and then keeps'']"
proof -
  have "chunkText (js ''  The quick  brown fox jumps over the lazy dog and then keeps running through the forest until night '') 12
     = Some [js ''The quick brown fox jumps over the lazy dog and then keeps'']"
    by (simp add: chunk_eval del: split_on_Cons_other)
  then show ?thesis
    using chunkText_lossless[of 12 "js ''  The quick  brown fox jumps over the lazy dog and then keeps running through the forest until night ''"]
    by simp
qed

subsection \<open>Rounding to binary64\<close>


lemma round_half_even_int [simp]: "round_half_even (of_int j) = j"
  by (simp add: round_half_even_def)

lemma round_half_even_bounds:
  "of_int \<lfloor>r\<rfloor> \<le> (of_int (round_half_even r) :: real) \<and> round_half_even r \<le> \<lfloor>r\<rfloor> + 1"
  by (simp add: round_half_even_def Let_def)

lemma round_half_even_mono_int: "of_int j \<le> r \<Longrightarrow> j \<le> round_half_even r"
proof -
  assume "of_int j \<le> r"
  then have "j \<le> \<lfloor>r\<rfloor>" by (simp add: le_floor_iff)
  moreover have "\<lfloor>r\<rfloor> \<le> round_half_even r" by (simp add: round_half_even_def Let_def)
  ultimately show ?thesis by simp
qed

lemma round_half_even_le_int: "r \<le> of_int j \<Longrightarrow> round_half_even r \<le> j"
proof -
  assume a: "r \<le> of_int j"
  show ?thesis
  proof (cases "r = of_int j")
    case True
    then show ?thesis by simp
  next
    case False
    with a have "r < of_int j" by simp
    then have "\<lfloor>r\<rfloor> < j" by (simp add: floor_less_iff)
    moreover have "round_half_even r \<le> \<lfloor>r\<rfloor> + 1" by (simp add: round_half_even_def Let_def)
    ultimately show ?thesis by simp
  qed
qed

lemma round_half_even_numeral [simp]: "round_half_even (numeral n) = numeral n"
  by (metis of_int_numeral round_half_even_int)

lemma round_half_even_0 [simp]: "round_half_even 0 = 0"
  by (simp add: round_half_even_def)

lemma round_double_0 [simp]: "round_double 0 = Fin 0"
  by (simp add: round_double_def round_magnitude_def)

lemma bitlen_eqI: "0 < w \<Longrightarrow> 2 ^ (w - 1) \<le> x \<Longrightarrow> x < 2 ^ w \<Longrightarrow> bitlen x = int w"
proof -
  assume a: "0 < w" "2 ^ (w - 1) \<le> x" "x < 2 ^ w"
  have "bitlen x \<le> int w" using a by (simp add: bitlen_le_iff_power)
  moreover have "int w \<le> bitlen x" using a by (simp add: bitlen_ge_iff_power)
  ultimately show ?thesis by simp
qed

lemma round_magnitude_normal:
  assumes e: "e \<le> min_exponent" and lo: "2 ^ 52 \<le> x * 2 ^ e" and hi: "x * 2 ^ e < 2 ^ 53"
  shows "round_magnitude x = Some (of_int (round_half_even (x * 2 ^ e)) / 2 ^ e)"
proof -
  define sh where "sh = min_exponent - e"
  define y where "y = x * 2 ^ e"
  have p: "(2::real) ^ min_exponent = 2 ^ e * 2 ^ sh"
    using e by (simp add: sh_def flip: power_add)
  have k: "x * 2 ^ min_exponent = y * 2 ^ sh" by (simp add: p y_def)
  have "2 ^ 52 * 2 ^ sh \<le> y * 2 ^ sh" using lo by (simp add: y_def)
  then have "of_int (2 ^ (52 + sh)) \<le> y * 2 ^ sh" by (simp add: power_add)
  then have fl: "2 ^ (52 + sh) \<le> \<lfloor>y * 2 ^ sh\<rfloor>" by (simp only: le_floor_iff)
  have "y * 2 ^ sh < 2 ^ 53 * 2 ^ sh" using hi by (simp add: y_def)
  then have "y * 2 ^ sh < of_int (2 ^ (53 + sh))" by (simp add: power_add)
  then have fh: "\<lfloor>y * 2 ^ sh\<rfloor> < 2 ^ (53 + sh)" by (simp only: floor_less_iff)
  have bl: "bitlen \<lfloor>y * 2 ^ sh\<rfloor> = int (53 + sh)"
    using fl fh by (intro bitlen_eqI) simp_all
  have shn: "nat (bitlen \<lfloor>x * 2 ^ min_exponent\<rfloor> - 53) = sh" by (simp add: k bl)
  have m: "x * 2 ^ min_exponent / 2 ^ sh = y" by (simp add: k)
  have "round_half_even y \<le> 2 ^ 53"
    using hi round_half_even_le_int[of y "2 ^ 53"] by (simp add: y_def)
  then have "round_half_even y * 2 ^ sh \<le> 2 ^ 53 * 2 ^ sh" by simp
  also have "\<dots> = (2::int) ^ (53 + sh)" by (simp add: power_add)
  also have "\<dots> < 2 ^ (1024 + min_exponent)"
    by (rule power_strict_increasing) (simp_all add: sh_def)
  finally have nov: "\<not> 2 ^ (1024 + min_exponent) \<le> round_half_even y * 2 ^ sh" by simp
  have "real_of_int (round_half_even y * 2 ^ sh) / 2 ^ min_exponent = of_int (round_half_even y) / 2 ^ e"
    by (simp add: p)
  then show ?thesis
    unfolding round_magnitude_def Let_def shn m using nov by (simp add: y_def)
qed

lemma round_double_normal:
  assumes "e \<le> min_exponent" "2 ^ 52 \<le> x * 2 ^ e" "x * 2 ^ e < 2 ^ 53"
  shows "round_double x = Fin (of_int (round_half_even (x * 2 ^ e)) / 2 ^ e)"
proof -
  have "0 < x * 2 ^ e" using assms(2) by (smt (verit) zero_less_power)
  then have "0 \<le> x" by (simp add: zero_less_mult_iff)
  then show ?thesis by (simp add: round_double_def round_magnitude_normal[OF assms])
qed


lemma round_magnitude_on_grid: "round_magnitude x = Some y \<Longrightarrow> on_grid y"
proof -
  assume "round_magnitude x = Some y"
  then have "\<exists>j::int. Some y = Some (of_int j / 2 ^ min_exponent)"
    unfolding round_magnitude_def Let_def by (metis option.distinct(1))
  then show ?thesis unfolding on_grid_def by (simp only: option.inject)
qed

lemma on_grid_minus: "on_grid y \<Longrightarrow> on_grid (- y)"
  unfolding on_grid_def
proof -
  assume "\<exists>j::int. y = of_int j / 2 ^ min_exponent"
  then obtain j :: int where "y = of_int j / 2 ^ min_exponent" by blast
  then have "- y = of_int (- j) / 2 ^ min_exponent" by simp
  then show "\<exists>j::int. - y = of_int j / 2 ^ min_exponent" by blast
qed

lemma round_double_on_grid: "round_double x = Fin y \<Longrightarrow> on_grid y"
  by (auto simp: round_double_def split: if_splits option.splits
      dest: round_magnitude_on_grid intro: on_grid_minus)

lemma on_grid_diff: "on_grid a \<Longrightarrow> on_grid b \<Longrightarrow> on_grid (b - a)"
  unfolding on_grid_def
proof -
  assume "\<exists>j::int. a = of_int j / 2 ^ min_exponent" "\<exists>j::int. b = of_int j / 2 ^ min_exponent"
  then obtain i j :: int where "a = of_int i / 2 ^ min_exponent" "b = of_int j / 2 ^ min_exponent"
    by blast
  then have "b - a = of_int (j - i) / 2 ^ min_exponent" by (simp add: diff_divide_distrib)
  then show "\<exists>j::int. b - a = of_int j / 2 ^ min_exponent" by blast
qed

lemma on_grid_int: "on_grid (of_int j)"
proof -
  have "real_of_int j = of_int (j * 2 ^ min_exponent) / 2 ^ min_exponent" by simp
  then show ?thesis unfolding on_grid_def by blast
qed

lemma round_magnitude_pos:
  assumes "on_grid z" "0 < z"
  shows "round_magnitude z = None \<or> (\<exists>d>0. round_magnitude z = Some d)"
proof -
  from assms(1) obtain j :: int where z: "z = of_int j / 2 ^ min_exponent"
    unfolding on_grid_def by blast
  with assms(2) have j: "0 < j" by (simp add: zero_less_divide_iff)
  have k: "z * 2 ^ min_exponent = of_int j" by (simp add: z)
  define sh where "sh = nat (bitlen j - 53)"
  have "(2::int) ^ sh \<le> 2 ^ nat (bitlen j - 1)"
    by (rule power_increasing) (simp_all add: sh_def)
  also have "\<dots> \<le> j" using bitlen_bounds[OF j] by simp
  finally have "(2::int) ^ sh \<le> j" .
  then have "(2::real) ^ sh \<le> of_int j"
    by (metis of_int_le_iff of_int_numeral of_int_power)
  then have "of_int 1 \<le> real_of_int j / 2 ^ sh" by (simp add: le_divide_eq)
  then have m: "1 \<le> round_half_even (real_of_int j / 2 ^ sh)"
    by (rule round_half_even_mono_int)
  then have "0 < real_of_int (round_half_even (real_of_int j / 2 ^ sh) * 2 ^ sh) / 2 ^ min_exponent"
    by (simp add: zero_less_mult_iff)
  then show ?thesis
    unfolding round_magnitude_def Let_def k by (simp add: sh_def)
qed

lemma round_double_sign:
  assumes "on_grid z"
  shows "(0 < z \<longrightarrow> round_double z = PInf \<or> (\<exists>d>0. round_double z = Fin d))
       \<and> (z < 0 \<longrightarrow> round_double z = NInf \<or> (\<exists>d<0. round_double z = Fin d))"
proof (intro conjI impI)
  assume "0 < z"
  with round_magnitude_pos[OF assms] show "round_double z = PInf \<or> (\<exists>d>0. round_double z = Fin d)"
    by (auto simp: round_double_def)
next
  assume n: "z < 0"
  then have "0 < - z" by simp
  from round_magnitude_pos[OF on_grid_minus[OF assms] this] n
  show "round_double z = NInf \<or> (\<exists>d<0. round_double z = Fin d)"
    by (auto simp: round_double_def)
qed





lemma round_small: "round_double 1 = Fin 1" "round_double 2 = Fin 2"
  using round_double_normal[of 52 1] round_double_normal[of 51 2]
  by (simp_all add: min_exponent_def)


subsection \<open>Retry with exponential backoff\<close>

lemma state_before_shift: "state_before fn (snd (fn s)) k = state_before fn s (Suc k)"
  by (simp add: state_before_def funpow_Suc_right del: funpow.simps)

lemma call_shift: "call fn (snd (fn s)) k = call fn s (Suc k)"
  by (simp add: call_def state_before_shift)

lemma retry_loop_success:
  "i < retries \<Longrightarrow> fn s = (Inr v, s') \<Longrightarrow>
   retry_loop fn retries i s ds = \<lparr>outcome = Inr v, world = s', attempts = i + 1, delays = ds\<rparr>"
  by (subst retry_loop.simps) simp

lemma retry_loop_abort:
  "i < retries \<Longrightarrow> fn s = (Inl e, s') \<Longrightarrow> i = retries - 1 \<or> \<not> isRateLimitError e \<Longrightarrow>
   retry_loop fn retries i s ds = \<lparr>outcome = Inl e, world = s', attempts = i + 1, delays = ds\<rparr>"
  by (subst retry_loop.simps) (simp add: Let_def)

lemma retry_loop_again:
  "i < retries \<Longrightarrow> fn s = (Inl e, s') \<Longrightarrow> i \<noteq> retries - 1 \<Longrightarrow> isRateLimitError e \<Longrightarrow>
   retry_loop fn retries i s ds
     = retry_loop fn retries (i + 1) s' (ds @ [INITIAL_RETRY_DELAY * 2 ^ i])"
  by (subst retry_loop.simps) (simp add: Let_def)



lemma run_ok_success:
  "i < retries \<Longrightarrow> fn s = (Inr v, s') \<Longrightarrow>
   run_ok fn retries i s ds \<lparr>outcome = Inr v, world = s', attempts = i + 1, delays = ds\<rparr>"
  by (simp add: run_ok_def call_def state_before_def)

lemma run_ok_abort:
  "i < retries \<Longrightarrow> fn s = (Inl e, s') \<Longrightarrow> i = retries - 1 \<or> \<not> isRateLimitError e \<Longrightarrow>
   run_ok fn retries i s ds \<lparr>outcome = Inl e, world = s', attempts = i + 1, delays = ds\<rparr>"
  unfolding run_ok_def by (simp add: call_def state_before_def) arith

lemma run_ok_again:
  assumes "i < retries" "fn s = (Inl e, s')" "isRateLimitError e"
    and ih: "run_ok fn retries (i + 1) s' (ds @ [INITIAL_RETRY_DELAY * 2 ^ i]) run"
  shows "run_ok fn retries i s ds run"
proof -
  have s': "s' = snd (fn s)" using assms(2) by simp
  from ih have lt: "i + 1 < attempts run" and le: "attempts run \<le> retries"
    unfolding run_ok_def by blast+
  from lt have a: "attempts run - 1 - i = Suc (attempts run - 1 - (i + 1))" by arith
  have c0: "call fn s 0 = Inl e" using assms(2) by (simp add: call_def state_before_def)
  have d: "[i..<attempts run - 1] = i # [i + 1..<attempts run - 1]"
    using lt by (simp add: upt_conv_Cons)
  from ih have "delays run = (ds @ [INITIAL_RETRY_DELAY * 2 ^ i])
      @ map (\<lambda>k. INITIAL_RETRY_DELAY * 2 ^ k) [i + 1..<attempts run - 1]"
    unfolding run_ok_def by blast
  then have 1: "delays run = ds @ map (\<lambda>k. INITIAL_RETRY_DELAY * 2 ^ k) [i..<attempts run - 1]"
    unfolding d by simp
  have 2: "\<forall>k<attempts run - 1 - i. \<exists>e. call fn s k = Inl e \<and> isRateLimitError e"
  proof (intro allI impI)
    fix k assume k: "k < attempts run - 1 - i"
    show "\<exists>e. call fn s k = Inl e \<and> isRateLimitError e"
    proof (cases k)
      case 0
      with c0 assms(3) show ?thesis by simp
    next
      case (Suc j)
      with k a have "j < attempts run - 1 - (i + 1)" by arith
      with ih have "\<exists>e. call fn s' j = Inl e \<and> isRateLimitError e"
        unfolding run_ok_def by blast
      then show ?thesis using Suc by (simp add: s' call_shift)
    qed
  qed
  from ih have "outcome run = call fn s' (attempts run - 1 - (i + 1))"
    unfolding run_ok_def by blast
  then have 3: "outcome run = call fn s (attempts run - 1 - i)"
    unfolding a by (simp add: s' call_shift)
  from ih have "world run = snd (fn (state_before fn s' (attempts run - 1 - (i + 1))))"
    unfolding run_ok_def by blast
  then have 4: "world run = snd (fn (state_before fn s (attempts run - 1 - i)))"
    unfolding a by (simp add: s' state_before_shift)
  have 5: "\<forall>e. outcome run = Inl e \<longrightarrow> \<not> isRateLimitError e \<or> attempts run = retries"
    using ih unfolding run_ok_def by blast
  from lt have 0: "i < attempts run" by arith
  show ?thesis unfolding run_ok_def using 0 le 1 2 3 4 5 by (intro conjI)
qed

lemma retry_loop_run:
  assumes "i < retries"
  shows "run_ok fn retries i s ds (retry_loop fn retries i s ds)"
  using assms
proof (induction "retries - i" arbitrary: i s ds rule: less_induct)
  case less
  obtain r s' where f: "fn s = (r, s')" by (cases "fn s")
  show ?case
  proof (cases r)
    case (Inr v)
    with f have fv: "fn s = (Inr v, s')" by simp
    show ?thesis
      unfolding retry_loop_success[of i retries fn s v s' ds, OF less.prems fv]
      by (rule run_ok_success[of i retries fn s v s' ds, OF less.prems fv])
  next
    case (Inl error)
    with f have fe: "fn s = (Inl error, s')" by simp
    show ?thesis
    proof (cases "i = retries - 1 \<or> \<not> isRateLimitError error")
      case True
      show ?thesis
        unfolding retry_loop_abort[of i retries fn s error s' ds, OF less.prems fe True]
        by (rule run_ok_abort[of i retries fn s error s' ds, OF less.prems fe True])
    next
      case False
      then have lt: "i + 1 < retries" and ne: "i \<noteq> retries - 1" and rl: "isRateLimitError error"
        using less.prems by auto
      have m: "retries - (i + 1) < retries - i" using less.prems by arith
      show ?thesis
        unfolding retry_loop_again[of i retries fn s error s' ds, OF less.prems fe ne rl]
        by (rule run_ok_again[of i retries fn s error s' ds, OF less.prems fe rl less.hyps[OF m lt]])
    qed
  qed
qed

text \<open>
  Claim C8, as the code has it. With the default of 3 retries the wrapper calls \<open>fn\<close> at least
  once and at most 3 times. Every failure that was followed by another attempt carried
  status 429 or 503 or a message containing "overloaded" or "rate limit"; a failure without
  such a signal is the last call, whatever number of attempts remains. The outcome is what
  the last call returned or threw, unchanged; a failure with the signal is the outcome only
  after the third attempt. The delay waited after failed attempt \<open>i\<close> (counted from 0), that
  is before attempt \<open>i + 1\<close>, is \<open>1000 * 2 ^ i\<close> milliseconds: nothing is waited before
  attempt 0, and with 3 attempts the delays are at most 1 s and 2 s.
\<close>

theorem retryWithBackoff_policy:
  assumes "retryWithBackoff fn MAX_RETRIES s = run"
  shows "1 \<le> attempts run \<and> attempts run \<le> 3
       \<and> (\<forall>k<attempts run - 1. \<exists>e. call fn s k = Inl e \<and> isRateLimitError e)
       \<and> (\<forall>k<attempts run. \<forall>e. call fn s k = Inl e \<and> \<not> isRateLimitError e \<longrightarrow>
             attempts run = k + 1)
       \<and> outcome run = call fn s (attempts run - 1)
       \<and> (\<forall>e. outcome run = Inl e \<and> isRateLimitError e \<longrightarrow> attempts run = 3)
       \<and> delays run = map (\<lambda>i. 1000 * 2 ^ i) [0..<attempts run - 1]"
proof -
  have r: "retry_loop fn 3 0 s [] = run"
    using assms by (simp add: retryWithBackoff_def MAX_RETRIES_def)
  have "run_ok fn 3 0 s [] run"
    using retry_loop_run[of 0 3 fn s "[]"] unfolding r by simp
  then have p1: "0 < attempts run" and p2: "attempts run \<le> 3"
    and p3: "delays run = [] @ map (\<lambda>k. INITIAL_RETRY_DELAY * 2 ^ k) [0..<attempts run - 1]"
    and p4: "\<forall>k<attempts run - 1 - 0. \<exists>e. call fn s k = Inl e \<and> isRateLimitError e"
    and p5: "outcome run = call fn s (attempts run - 1 - 0)"
    and p6: "\<forall>e. outcome run = Inl e \<longrightarrow> \<not> isRateLimitError e \<or> attempts run = 3"
    unfolding run_ok_def by blast+
  have q: "\<forall>k<attempts run. \<forall>e. call fn s k = Inl e \<and> \<not> isRateLimitError e \<longrightarrow> attempts run = k + 1"
  proof (intro allI impI)
    fix k e assume k: "k < attempts run" and e: "call fn s k = Inl e \<and> \<not> isRateLimitError e"
    show "attempts run = k + 1"
    proof (rule ccontr)
      assume "attempts run \<noteq> k + 1"
      with k have "k < attempts run - 1 - 0" by arith
      with p4 have "\<exists>e'. call fn s k = Inl e' \<and> isRateLimitError e'" by blast
      with e show False by auto
    qed
  qed
  from p1 have a: "1 \<le> attempts run" by simp
  from p3 have d: "delays run = map (\<lambda>i. 1000 * 2 ^ i) [0..<attempts run - 1]"
    by (simp add: INITIAL_RETRY_DELAY_def)
  from p4 have b: "\<forall>k<attempts run - 1. \<exists>e. call fn s k = Inl e \<and> isRateLimitError e" by simp
  from p5 have c: "outcome run = call fn s (attempts run - 1)" by simp
  from p6 have e: "\<forall>e. outcome run = Inl e \<and> isRateLimitError e \<longrightarrow> attempts run = 3" by blast
  from a p2 b q c e d show ?thesis by (intro conjI)
qed

lemma busy_run:
  "retryWithBackoff busy_service MAX_RETRIES ()
     = \<lparr>outcome = Inl \<lparr>status = Some 503, response_status = None, message = None\<rparr>,
        world = (), attempts = 3, delays = [1000, 2000]\<rparr>"
  by (simp add: retryWithBackoff_def MAX_RETRIES_def retry_loop.simps busy_service_def
      isRateLimitError_def INITIAL_RETRY_DELAY_def Let_def)

text \<open>
  Claim C8 as stated fails on the delays: against a service that always answers 503 the
  wrapper makes its 3 attempts and waits 1000 ms and 2000 ms between them. The delay before
  attempt 1 is \<open>1000 * 2 ^ 0\<close>, not \<open>1000 * 2 ^ 1\<close>, and no delay of 4000 ms occurs.
\<close>

theorem retryWithBackoff_delays_counterexample:
  "attempts (retryWithBackoff busy_service MAX_RETRIES ()) = 3
   \<and> delays (retryWithBackoff busy_service MAX_RETRIES ()) = [1000, 2000]"
  by (simp add: busy_run)

theorem retryWithBackoff_policy_witness:
  "attempts (retryWithBackoff busy_service MAX_RETRIES ()) = 3
   \<and> outcome (retryWithBackoff busy_service MAX_RETRIES ()) = call busy_service () 2
   \<and> isRateLimitError \<lparr>status = Some 503, response_status = None, message = None\<rparr>
   \<and> delays (retryWithBackoff busy_service MAX_RETRIES ()) = [1000 * 2 ^ 0, 1000 * 2 ^ 1]"
  using retryWithBackoff_policy[OF refl, of busy_service "()"]
  by (simp add: busy_run isRateLimitError_def)


subsection \<open>The embedding client\<close>

lemma trim_Nil [simp]: "trim [] = []" by (simp add: trim_def)

lemma item_state_Cons:
  "item_state ec (t # ts) s (Suc i) = item_state ec ts (snd (embed_item ec t s)) i"
  by (induction i) simp_all

lemma embeddings_loop_step:
  "embeddings_loop ec (t # ts) s acc
     = embeddings_loop ec ts (snd (embed_item ec t s)) (acc @ [fst (embed_item ec t s)])"
  by (cases t) (auto simp: embed_item_def Let_def split: sum.splits)

lemma embeddings_loop_char:
  "embeddings_loop ec ts s acc
     = (acc @ map (\<lambda>i. fst (embed_item ec (ts ! i) (item_state ec ts s i))) [0..<length ts],
        item_state ec ts s (length ts))"
proof (induction ts arbitrary: s acc)
  case Nil
  then show ?case by simp
next
  case (Cons t ts)
  have "map (\<lambda>i. fst (embed_item ec ((t # ts) ! i) (item_state ec (t # ts) s i))) [0..<length (t # ts)]
      = fst (embed_item ec t s) #
        map (\<lambda>i. fst (embed_item ec (ts ! i) (item_state ec ts (snd (embed_item ec t s)) i))) [0..<length ts]"
  proof -
    have "[0..<length (t # ts)] = 0 # map Suc [0..<length ts]"
      by (simp add: upt_conv_Cons map_Suc_upt del: upt_Suc)
    then show ?thesis
      by (simp add: comp_def item_state_Cons del: upt_Suc item_state.simps(2))
  qed
  then show ?case
    unfolding embeddings_loop_step Cons.IH
    by (simp add: item_state_Cons del: item_state.simps(2))
qed


lemma embed_call_valid:
  "fst (embed_call ec t s) = Inr v \<Longrightarrow> is_array v \<and> array_length v = embeddingDimension"
  by (auto simp: embed_call_def Let_def split: prod.splits sum.splits if_splits)

lemma retry_embed_valid:
  assumes "outcome (retryWithBackoff (embed_call ec t) MAX_RETRIES s) = Inr v"
  shows "is_array v \<and> array_length v = embeddingDimension"
proof -
  have "run_ok (embed_call ec t) 3 0 s [] (retry_loop (embed_call ec t) 3 0 s [])"
    by (rule retry_loop_run) simp
  then have "outcome (retry_loop (embed_call ec t) 3 0 s [])
      = call (embed_call ec t) s (attempts (retry_loop (embed_call ec t) 3 0 s []) - 1 - 0)"
    unfolding run_ok_def by blast
  with assms show ?thesis
    by (auto simp: retryWithBackoff_def MAX_RETRIES_def call_def dest: embed_call_valid)
qed

lemma embed_item_valid:
  "is_array (fst (embed_item ec x s)) \<and> array_length (fst (embed_item ec x s)) = embeddingDimension"
proof (cases x)
  case (String t)
  show ?thesis
  proof (cases "outcome (retryWithBackoff (embed_call ec t) MAX_RETRIES s)")
    case (Inl e)
    with String show ?thesis by (simp add: embed_item_def zero_vector_def)
  next
    case (Inr v)
    with String retry_embed_valid[OF Inr] show ?thesis
      by (simp add: embed_item_def zero_vector_def)
  qed
qed (simp_all add: embed_item_def zero_vector_def)

lemma embed_item_cases:
  "((\<forall>t. x = String t \<longrightarrow> trim t = []) \<longrightarrow>
      embed_item ec x s = (Array (replicate 768 (Number (Fin 0))), s))
   \<and> (\<forall>t e. x = String t \<and> trim t \<noteq> []
          \<and> outcome (retryWithBackoff (embed_call ec t) MAX_RETRIES s) = Inl e \<longrightarrow>
        fst (embed_item ec x s) = Array (replicate 768 (Number (Fin 0))))
   \<and> (\<forall>t v. x = String t \<and> trim t \<noteq> []
          \<and> outcome (retryWithBackoff (embed_call ec t) MAX_RETRIES s) = Inr v \<longrightarrow>
        fst (embed_item ec x s) = v)
   \<and> (\<forall>t. x = String t \<and> trim t \<noteq> [] \<longrightarrow>
        snd (embed_item ec x s) = world (retryWithBackoff (embed_call ec t) MAX_RETRIES s))"
  by (cases x) (auto simp: embed_item_def zero_vector_def embeddingDimension_def split: sum.splits)

lemma embed_item_array:
  "\<exists>xs. fst (embed_item ec x s) = Array xs \<and> length xs = 768"
  using embed_item_valid[of ec x s]
  by (cases "fst (embed_item ec x s)") (simp_all add: embeddingDimension_def)

text \<open>
  Claim C2. For every non-empty array of texts, whatever the embedding service answers,
  \<open>generateEmbeddings\<close> returns (it does not fail) exactly as many vectors as texts, every one
  an array of 768 elements. The items are handled one after the other in input order, each in
  the state of the service that the items before it have left: an item that is not a string,
  or is empty or blank, gives the array of 768 zeros and leaves the state as it is; a string
  whose retried service call ends in an error gives the array of 768 zeros; a string whose
  retried call succeeds gives the vector that the call returned; and the calls of a string
  item move the state on.
\<close>

theorem generateEmbeddings_total:
  assumes "ts \<noteq> []"
  shows "\<exists>embeddings s'. generateEmbeddings embedContent (Array ts) s = (Inr embeddings, s')
      \<and> length embeddings = length ts
      \<and> (\<forall>v\<in>set embeddings. \<exists>xs. v = Array xs \<and> length xs = 768)
      \<and> (\<forall>i<length ts. embeddings ! i
            = fst (embed_item embedContent (ts ! i) (item_state embedContent ts s i)))
      \<and> s' = item_state embedContent ts s (length ts)
      \<and> (\<forall>i<length ts.
            ((\<forall>t. ts ! i = String t \<longrightarrow> trim t = []) \<longrightarrow>
               embeddings ! i = Array (replicate 768 (Number (Fin 0)))
               \<and> item_state embedContent ts s (Suc i) = item_state embedContent ts s i)
            \<and> (\<forall>t e. ts ! i = String t \<and> trim t \<noteq> []
                  \<and> outcome (retryWithBackoff (embed_call embedContent t) MAX_RETRIES
                               (item_state embedContent ts s i)) = Inl e \<longrightarrow>
                 embeddings ! i = Array (replicate 768 (Number (Fin 0))))
            \<and> (\<forall>t v. ts ! i = String t \<and> trim t \<noteq> []
                  \<and> outcome (retryWithBackoff (embed_call embedContent t) MAX_RETRIES
                               (item_state embedContent ts s i)) = Inr v \<longrightarrow>
                 embeddings ! i = v)
            \<and> (\<forall>t. ts ! i = String t \<and> trim t \<noteq> [] \<longrightarrow>
                 item_state embedContent ts s (Suc i)
                   = world (retryWithBackoff (embed_call embedContent t) MAX_RETRIES
                              (item_state embedContent ts s i))))"
proof -
  let ?embs = "map (\<lambda>i. fst (embed_item embedContent (ts ! i) (item_state embedContent ts s i)))
                 [0..<length ts]"
  have "generateEmbeddings embedContent (Array ts) s
          = (Inr ?embs, item_state embedContent ts s (length ts))"
    using assms by (simp add: generateEmbeddings_def embeddings_loop_char)
  moreover have "length ?embs = length ts" by simp
  moreover have "\<forall>v\<in>set ?embs. \<exists>xs. v = Array xs \<and> length xs = 768"
    using embed_item_array by auto
  moreover have nth: "\<forall>i<length ts. ?embs ! i
            = fst (embed_item embedContent (ts ! i) (item_state embedContent ts s i))"
    by simp
  moreover have "\<forall>i<length ts.
            ((\<forall>t. ts ! i = String t \<longrightarrow> trim t = []) \<longrightarrow>
               ?embs ! i = Array (replicate 768 (Number (Fin 0)))
               \<and> item_state embedContent ts s (Suc i) = item_state embedContent ts s i)
            \<and> (\<forall>t e. ts ! i = String t \<and> trim t \<noteq> []
                  \<and> outcome (retryWithBackoff (embed_call embedContent t) MAX_RETRIES
                               (item_state embedContent ts s i)) = Inl e \<longrightarrow>
                 ?embs ! i = Array (replicate 768 (Number (Fin 0))))
            \<and> (\<forall>t v. ts ! i = String t \<and> trim t \<noteq> []
                  \<and> outcome (retryWithBackoff (embed_call embedContent t) MAX_RETRIES
                               (item_state embedContent ts s i)) = Inr v \<longrightarrow>
                 ?embs ! i = v)
            \<and> (\<forall>t. ts ! i = String t \<and> trim t \<noteq> [] \<longrightarrow>
                 item_state embedContent ts s (Suc i)
                   = world (retryWithBackoff (embed_call embedContent t) MAX_RETRIES
                              (item_state embedContent ts s i)))"
  proof (intro allI impI)
    fix i assume i: "i < length ts"
    note c = embed_item_cases[of "ts ! i" embedContent "item_state embedContent ts s i"]
    have e: "?embs ! i = fst (embed_item embedContent (ts ! i) (item_state embedContent ts s i))"
      using i by simp
    have st: "item_state embedContent ts s (Suc i)
         = snd (embed_item embedContent (ts ! i) (item_state embedContent ts s i))"
      by simp
    show "((\<forall>t. ts ! i = String t \<longrightarrow> trim t = []) \<longrightarrow>
               ?embs ! i = Array (replicate 768 (Number (Fin 0)))
               \<and> item_state embedContent ts s (Suc i) = item_state embedContent ts s i)
            \<and> (\<forall>t e. ts ! i = String t \<and> trim t \<noteq> []
                  \<and> outcome (retryWithBackoff (embed_call embedContent t) MAX_RETRIES
                               (item_state embedContent ts s i)) = Inl e \<longrightarrow>
                 ?embs ! i = Array (replicate 768 (Number (Fin 0))))
            \<and> (\<forall>t v. ts ! i = String t \<and> trim t \<noteq> []
                  \<and> outcome (retryWithBackoff (embed_call embedContent t) MAX_RETRIES
                               (item_state embedContent ts s i)) = Inr v \<longrightarrow>
                 ?embs ! i = v)
            \<and> (\<forall>t. ts ! i = String t \<and> trim t \<noteq> [] \<longrightarrow>
                 item_state embedContent ts s (Suc i)
                   = world (retryWithBackoff (embed_call embedContent t) MAX_RETRIES
                              (item_state embedContent ts s i)))"
      unfolding e st using c by (metis fst_conv snd_conv)
  qed
  ultimately show ?thesis by blast
qed

lemmas embed_eval = generateEmbeddings_def retryWithBackoff_def MAX_RETRIES_def
  retry_loop.simps embed_call_def sample_embedder_def isRateLimitError_def Let_def
  trim_def is_space_def js_def zero_vector_def Error_def digits_of.simps

theorem generateEmbeddings_total_witness:
  "generateEmbeddings sample_embedder
     (Array [String (js ''good''), String (js ''  ''), Number (Fin 5), String (js ''busy''),
             String (js ''short''), String (js ''fine'')]) 0
   = (Inr [Array (replicate 768 (Number (Fin 1))),
           Array (replicate 768 (Number (Fin 0))),
           Array (replicate 768 (Number (Fin 0))),
           Array (replicate 768 (Number (Fin 0))),
           Array (replicate 768 (Number (Fin 0))),
           Array (replicate 768 (Number (Fin 1)))], 6)"
  using generateEmbeddings_total[of "[String (js ''good''), String (js ''  ''), Number (Fin 5),
           String (js ''busy''), String (js ''short''), String (js ''fine'')]" sample_embedder 0]
  by (simp add: embed_eval embeddingDimension_def)

subsection \<open>The answer evaluator\<close>

lemma clamp_score_ge: "Suc 0 \<le> clamp_score x"
  by (simp add: clamp_score_def)

lemma clamp_score_le: "clamp_score x \<le> 10"
  by (simp add: clamp_score_def)

lemma parse_block_range: "scores_in_range (parse_block b)"
  by (simp add: parse_block_def Let_def scores_in_range_def clamp_score_ge clamp_score_le)

lemma parse_loop_map: "parse_loop bs acc = acc @ map parse_block bs"
  by (induction bs arbitrary: acc) simp_all

lemma pad_loop_replicate:
  "pad_loop evs n = evs @ replicate (n - length evs) missing_evaluation"
proof (induction evs n rule: pad_loop.induct)
  case (1 evs n)
  show ?case
  proof (cases "length evs < n")
    case True
    then have "n - length evs = Suc (n - Suc (length evs))" by arith
    with True 1 show ?thesis
      by (subst pad_loop.simps) (simp add: replicate_app_Cons_same)
  next
    case False
    then show ?thesis by (subst pad_loop.simps) simp
  qed
qed

lemma fallback_length [simp]: "length (fallback_evaluations qas e k) = length qas"
  by (induction qas arbitrary: k) simp_all

lemma fallback_nth:
  "i < length qas \<Longrightarrow>
   fallback_evaluations qas e k ! i
     = \<lparr>score = 1, relevanceScore = 1, correctnessScore = 1,
        feedback = js ''A critical error occurred during evaluation: '' @ message_text e
                   @ js ''. Unable to provide feedback for question '' @ digits_of (k + i + 1) @ js ''.''\<rparr>"
proof (induction qas arbitrary: k i)
  case Nil
  then show ?case by simp
next
  case (Cons qa rest)
  then show ?case by (cases i) simp_all
qed

lemma fallback_range: "x \<in> set (fallback_evaluations qas e k) \<Longrightarrow> scores_in_range x"
  by (induction qas arbitrary: k) (auto simp: scores_in_range_def)

lemma qa_pair_truthy: "qa_pair qa \<Longrightarrow> truthy qa"
  by (cases qa) (simp_all add: qa_pair_def)

lemma validate_pairs_valid: "\<forall>qa\<in>set qas. qa_pair qa \<Longrightarrow> validate_pairs qas k = None"
  by (induction qas arbitrary: k) (auto simp: qa_pair_truthy, auto simp: qa_pair_def)

lemma validate_pairs_invalid:
  "\<exists>qa\<in>set qas. \<not> qa_pair qa \<Longrightarrow>
   \<exists>idx<length qas. \<not> qa_pair (qas ! idx) \<and> (\<forall>j<idx. qa_pair (qas ! j))
     \<and> validate_pairs qas k
         = Some (Error (js ''Invalid format for question/answer pair at index '' @ digits_of (k + idx)
                        @ js ''. Expected {question: string, answer: string}''))"
proof (induction qas arbitrary: k)
  case Nil
  then show ?case by simp
next
  case (Cons qa rest)
  show ?case
  proof (cases "qa_pair qa")
    case False
    then have "validate_pairs (qa # rest) k
         = Some (Error (js ''Invalid format for question/answer pair at index '' @ digits_of (k + 0)
                        @ js ''. Expected {question: string, answer: string}''))"
      by (auto simp: qa_pair_def)
    with False show ?thesis by (intro exI[of _ 0]) simp
  next
    case True
    with Cons.prems have "\<exists>qa\<in>set rest. \<not> qa_pair qa" by auto
    from Cons.IH[OF this, of "k + 1"] obtain idx where idx: "idx < length rest"
      "\<not> qa_pair (rest ! idx)" "\<forall>j<idx. qa_pair (rest ! j)"
      "validate_pairs rest (k + 1)
         = Some (Error (js ''Invalid format for question/answer pair at index '' @ digits_of (k + 1 + idx)
                        @ js ''. Expected {question: string, answer: string}''))"
      by blast
    have v: "validate_pairs (qa # rest) k = validate_pairs rest (k + 1)"
      using True qa_pair_truthy[OF True] by (simp add: qa_pair_def)
    have "\<forall>j<Suc idx. qa_pair ((qa # rest) ! j)"
      using True idx(3) by (auto simp: less_Suc_eq_0_disj)
    with idx v show ?thesis
      by (intro exI[of _ "Suc idx"]) simp
  qed
qed

lemma try_valid:
  assumes "qas \<noteq> []" "\<forall>qa\<in>set qas. qa_pair qa"
    and "retryWithBackoff (evaluation_call gen (evaluation_prompt qas ctx)) MAX_RETRIES s = run"
  shows "evaluateAllAnswers_try gen (Array qas) ctx s =
     (case outcome run of
        Inl error \<Rightarrow> (Inl error, world run)
      | Inr evaluationText \<Rightarrow>
          if response_blocks evaluationText = [] then
            (Inl (Error (js ''Failed to parse evaluation response format. Unexpected AI output.'')), world run)
          else
            (Inr (take (length qas)
                   (map parse_block (response_blocks evaluationText)
                    @ replicate (length qas - length (response_blocks evaluationText)) missing_evaluation)),
             world run))"
  using assms validate_pairs_valid[OF assms(2), of 0]
  by (auto simp: evaluateAllAnswers_try_def Let_def parse_loop_map pad_loop_replicate
      split: sum.splits)


lemma take_padded_length:
  "bs \<noteq> [] \<Longrightarrow> length (take n (map f bs @ replicate (n - length bs) x)) = n"
  by simp

text \<open>
  Claim C1. For every non-empty array of entries with a string question and a string answer,
  every resume context and every behaviour of the generation service, \<open>evaluateAllAnswers\<close>
  returns a list with exactly one evaluation per entry, and each relevance, correctness and
  overall score is an integer between 1 and 10. When the response has at least one block,
  evaluation \<open>i\<close> is the parse of block \<open>i\<close>; missing blocks are padded on the right with the
  placeholder that has the three scores 1 and says that the evaluation was missing, and extra
  blocks are cut off. When the response has no block, or the generation call fails after its
  retries, evaluation \<open>i\<close> has the three scores 1 and a feedback that quotes the error message
  and names question \<open>i + 1\<close>.
\<close>

theorem evaluateAllAnswers_total:
  assumes "qas \<noteq> []" and "\<forall>qa\<in>set qas. qa_pair qa"
    and "retryWithBackoff (evaluation_call generateContent (evaluation_prompt qas resumeContext))
           MAX_RETRIES s = run"
  shows "\<exists>evaluations.
           evaluateAllAnswers generateContent (Array qas) resumeContext s = (Inr evaluations, world run)
         \<and> length evaluations = length qas
         \<and> (\<forall>e\<in>set evaluations.
               1 \<le> relevanceScore e \<and> relevanceScore e \<le> 10
               \<and> 1 \<le> correctnessScore e \<and> correctnessScore e \<le> 10
               \<and> 1 \<le> score e \<and> score e \<le> 10)
         \<and> (\<forall>evaluationText. outcome run = Inr evaluationText \<and> response_blocks evaluationText \<noteq> [] \<longrightarrow>
               evaluations = take (length qas)
                 (map parse_block (response_blocks evaluationText)
                  @ replicate (length qas - length (response_blocks evaluationText))
                      \<lparr>score = 1, relevanceScore = 1, correctnessScore = 1,
                       feedback = js ''Evaluation for this question was missing in the AI response.''\<rparr>))
         \<and> (\<forall>error. outcome run = Inl error
                  \<or> (\<exists>evaluationText. outcome run = Inr evaluationText \<and> response_blocks evaluationText = []
                        \<and> error = Error (js ''Failed to parse evaluation response format. Unexpected AI output.''))
               \<longrightarrow> (\<forall>i<length qas. evaluations ! i =
                     \<lparr>score = 1, relevanceScore = 1, correctnessScore = 1,
                      feedback = js ''A critical error occurred during evaluation: '' @ message_text error
                        @ js ''. Unable to provide feedback for question '' @ digits_of (i + 1) @ js ''.''\<rparr>))"
proof (cases "outcome run")
  case (Inl error)
  have "evaluateAllAnswers generateContent (Array qas) resumeContext s
          = (Inr (fallback_evaluations qas error 0), world run)"
    using Inl by (simp add: evaluateAllAnswers_def try_valid[OF assms])
  moreover have "\<forall>e\<in>set (fallback_evaluations qas error 0).
               1 \<le> relevanceScore e \<and> relevanceScore e \<le> 10
               \<and> 1 \<le> correctnessScore e \<and> correctnessScore e \<le> 10
               \<and> 1 \<le> score e \<and> score e \<le> 10"
    using fallback_range unfolding scores_in_range_def by blast
  moreover have "\<forall>i<length qas. fallback_evaluations qas error 0 ! i =
       \<lparr>score = 1, relevanceScore = 1, correctnessScore = 1,
        feedback = js ''A critical error occurred during evaluation: '' @ message_text error
          @ js ''. Unable to provide feedback for question '' @ digits_of (i + 1) @ js ''.''\<rparr>"
    using fallback_nth[of _ qas error 0] by simp
  ultimately show ?thesis using Inl by (intro exI[of _ "fallback_evaluations qas error 0"]) simp
next
  case (Inr evaluationText)
  show ?thesis
  proof (cases "response_blocks evaluationText = []")
    case True
    let ?e = "Error (js ''Failed to parse evaluation response format. Unexpected AI output.'')"
    have "evaluateAllAnswers generateContent (Array qas) resumeContext s
          = (Inr (fallback_evaluations qas ?e 0), world run)"
      using Inr True by (simp add: evaluateAllAnswers_def try_valid[OF assms])
    moreover have "\<forall>e\<in>set (fallback_evaluations qas ?e 0).
               1 \<le> relevanceScore e \<and> relevanceScore e \<le> 10
               \<and> 1 \<le> correctnessScore e \<and> correctnessScore e \<le> 10
               \<and> 1 \<le> score e \<and> score e \<le> 10"
      using fallback_range unfolding scores_in_range_def by blast
    moreover have "\<forall>i<length qas. fallback_evaluations qas ?e 0 ! i =
       \<lparr>score = 1, relevanceScore = 1, correctnessScore = 1,
        feedback = js ''A critical error occurred during evaluation: '' @ message_text ?e
          @ js ''. Unable to provide feedback for question '' @ digits_of (i + 1) @ js ''.''\<rparr>"
      using fallback_nth[of _ qas ?e 0] by simp
    ultimately show ?thesis using Inr True
      by (intro exI[of _ "fallback_evaluations qas ?e 0"]) simp
  next
    case False
    let ?evs = "take (length qas) (map parse_block (response_blocks evaluationText)
                  @ replicate (length qas - length (response_blocks evaluationText))
                      \<lparr>score = 1, relevanceScore = 1, correctnessScore = 1,
                       feedback = js ''Evaluation for this question was missing in the AI response.''\<rparr>)"
    have "evaluateAllAnswers generateContent (Array qas) resumeContext s = (Inr ?evs, world run)"
      using Inr False
      by (simp add: evaluateAllAnswers_def try_valid[OF assms] missing_evaluation_def)
    moreover have "length ?evs = length qas" using False by simp
    moreover have "\<forall>e\<in>set ?evs.
               1 \<le> relevanceScore e \<and> relevanceScore e \<le> 10
               \<and> 1 \<le> correctnessScore e \<and> correctnessScore e \<le> 10
               \<and> 1 \<le> score e \<and> score e \<le> 10"
    proof
      fix e assume "e \<in> set ?evs"
      then have "e \<in> set (map parse_block (response_blocks evaluationText)
                  @ replicate (length qas - length (response_blocks evaluationText))
                      \<lparr>score = 1, relevanceScore = 1, correctnessScore = 1,
                       feedback = js ''Evaluation for this question was missing in the AI response.''\<rparr>)"
        by (rule in_set_takeD)
      then have "scores_in_range e"
        using parse_block_range by (auto simp: scores_in_range_def)
      then show "1 \<le> relevanceScore e \<and> relevanceScore e \<le> 10
               \<and> 1 \<le> correctnessScore e \<and> correctnessScore e \<le> 10
               \<and> 1 \<le> score e \<and> score e \<le> 10"
        unfolding scores_in_range_def .
    qed
    ultimately show ?thesis using Inr False by (intro exI[of _ "?evs"]) simp
  qed
qed

text \<open>
  Claim C6, as the code has it. The errors that \<open>evaluateAllAnswers\<close> raises for an empty
  input list, for an entry without a string question or answer, and for a response without
  blocks are caught by its own handler and do not reach the caller: for the empty list it
  returns the empty list, and in the two other cases it returns one fallback evaluation per
  entry, with scores 1 and the error message in the feedback. The generation service is not
  called in the first two cases.
\<close>

theorem evaluateAllAnswers_errors_swallowed:
  "evaluateAllAnswers generateContent (Array []) resumeContext s = (Inr [], s)
   \<and> ((\<exists>qa\<in>set qas. \<not> qa_pair qa) \<longrightarrow>
        (\<exists>idx<length qas. \<not> qa_pair (qas ! idx)
           \<and> evaluateAllAnswers generateContent (Array qas) resumeContext s
               = (Inr (fallback_evaluations qas
                        (Error (js ''Invalid format for question/answer pair at index '' @ digits_of idx
                                @ js ''. Expected {question: string, answer: string}'')) 0), s)))
   \<and> (qas \<noteq> [] \<and> (\<forall>qa\<in>set qas. qa_pair qa)
        \<and> outcome (retryWithBackoff (evaluation_call generateContent (evaluation_prompt qas resumeContext))
                     MAX_RETRIES s) = Inr evaluationText
        \<and> response_blocks evaluationText = [] \<longrightarrow>
        evaluateAllAnswers generateContent (Array qas) resumeContext s
          = (Inr (fallback_evaluations qas
                   (Error (js ''Failed to parse evaluation response format. Unexpected AI output.'')) 0),
             world (retryWithBackoff (evaluation_call generateContent (evaluation_prompt qas resumeContext))
                     MAX_RETRIES s)))"
proof (intro conjI impI)
  show "evaluateAllAnswers generateContent (Array []) resumeContext s = (Inr [], s)"
    by (simp add: evaluateAllAnswers_def evaluateAllAnswers_try_def)
next
  assume inv: "\<exists>qa\<in>set qas. \<not> qa_pair qa"
  then have ne: "qas \<noteq> []" by auto
  from validate_pairs_invalid[OF inv, of 0] obtain idx where idx: "idx < length qas"
    "\<not> qa_pair (qas ! idx)"
    "validate_pairs qas 0
       = Some (Error (js ''Invalid format for question/answer pair at index '' @ digits_of (0 + idx)
                      @ js ''. Expected {question: string, answer: string}''))"
    by blast
  have "evaluateAllAnswers generateContent (Array qas) resumeContext s
               = (Inr (fallback_evaluations qas
                        (Error (js ''Invalid format for question/answer pair at index '' @ digits_of idx
                                @ js ''. Expected {question: string, answer: string}'')) 0), s)"
    using ne idx(3) by (simp add: evaluateAllAnswers_def evaluateAllAnswers_try_def)
  with idx(1,2) show "\<exists>idx<length qas. \<not> qa_pair (qas ! idx)
           \<and> evaluateAllAnswers generateContent (Array qas) resumeContext s
               = (Inr (fallback_evaluations qas
                        (Error (js ''Invalid format for question/answer pair at index '' @ digits_of idx
                                @ js ''. Expected {question: string, answer: string}'')) 0), s)"
    by blast
next
  assume a: "qas \<noteq> [] \<and> (\<forall>qa\<in>set qas. qa_pair qa)
        \<and> outcome (retryWithBackoff (evaluation_call generateContent (evaluation_prompt qas resumeContext))
                     MAX_RETRIES s) = Inr evaluationText
        \<and> response_blocks evaluationText = []"
  then show "evaluateAllAnswers generateContent (Array qas) resumeContext s
          = (Inr (fallback_evaluations qas
                   (Error (js ''Failed to parse evaluation response format. Unexpected AI output.'')) 0),
             world (retryWithBackoff (evaluation_call generateContent (evaluation_prompt qas resumeContext))
                     MAX_RETRIES s))"
    by (simp add: evaluateAllAnswers_def try_valid[OF _ _ refl])
qed


lemmas evaluate_eval = evaluateAllAnswers_def evaluateAllAnswers_try_def sample_pairs_def
  retryWithBackoff_def MAX_RETRIES_def retry_loop.simps evaluation_call_def sample_generator_def
  response_blocks_def match_question_def canon_def is_digit_def is_space_def trim_def
  parse_block_def parseInt_def clamp_score_def pad_loop.simps Let_def js_def Error_def
  missing_evaluation_def isRateLimitError_def qa_pair_def

theorem evaluateAllAnswers_total_witness:
  "sample_pairs \<noteq> [] \<and> qa_pair (sample_pairs ! 0) \<and> qa_pair (sample_pairs ! 1)
   \<and> length sample_pairs = 2
   \<and> evaluateAllAnswers
         (sample_generator (js ''Question 1:\<newline>Relevance: 8/10\<newline>Correctness: 7/10\<newline>Feedback: Good.''))
         (Array sample_pairs) (String (js ''resume'')) 0
       = (Inr [\<lparr>score = 8, relevanceScore = 8, correctnessScore = 7, feedback = js ''Good.''\<rparr>,
               \<lparr>score = 1, relevanceScore = 1, correctnessScore = 1,
                feedback = js ''Evaluation for this question was missing in the AI response.''\<rparr>], 1)
   \<and> evaluateAllAnswers
         (sample_generator (js ''Question 1: Relevance: 3 Correctness: 12 Question 2: Overall: 9 Feedback: ok Question 3: Relevance: 2''))
         (Array sample_pairs) (String (js ''resume'')) 0
       = (Inr [\<lparr>score = 8, relevanceScore = 3, correctnessScore = 10,
                feedback = js ''Feedback could not be parsed. Please check the raw AI response if needed.''\<rparr>,
               \<lparr>score = 9, relevanceScore = 5, correctnessScore = 5, feedback = js ''ok''\<rparr>], 1)"
proof -
  have ne: "sample_pairs \<noteq> []" by (simp add: sample_pairs_def)
  have v: "\<forall>qa\<in>set sample_pairs. qa_pair qa" by (simp add: sample_pairs_def qa_pair_def js_def)
  have r1: "response_blocks (js ''Question 1:\<newline>Relevance: 8/10\<newline>Correctness: 7/10\<newline>Feedback: Good.'')
      = [js ''\<newline>Relevance: 8/10\<newline>Correctness: 7/10\<newline>Feedback: Good.'']"
    by (simp add: response_blocks_def match_question_def canon_def is_digit_def is_space_def
        trim_def Let_def js_def)
  have r2: "response_blocks (js ''Question 1: Relevance: 3 Correctness: 12 Question 2: Overall: 9 Feedback: ok Question 3: Relevance: 2'')
      = [js '' Relevance: 3 Correctness: 12 '', js '' Overall: 9 Feedback: ok '', js '' Relevance: 2'']"
    by (simp add: response_blocks_def match_question_def canon_def is_digit_def is_space_def
        trim_def Let_def js_def)
  have o: "retryWithBackoff (evaluation_call (sample_generator reply)
              (evaluation_prompt sample_pairs (String (js ''resume'')))) MAX_RETRIES 0
           = \<lparr>outcome = Inr reply, world = 1, attempts = 1, delays = []\<rparr>"
    if "reply \<noteq> []" "trim reply \<noteq> []" for reply
    using that
    by (simp add: retryWithBackoff_def MAX_RETRIES_def retry_loop.simps evaluation_call_def
        sample_generator_def)
  have o1: "outcome (retryWithBackoff (evaluation_call (sample_generator (js ''Question 1:\<newline>Relevance: 8/10\<newline>Correctness: 7/10\<newline>Feedback: Good.''))
              (evaluation_prompt sample_pairs (String (js ''resume'')))) MAX_RETRIES 0)
           = Inr (js ''Question 1:\<newline>Relevance: 8/10\<newline>Correctness: 7/10\<newline>Feedback: Good.'')"
    "world (retryWithBackoff (evaluation_call (sample_generator (js ''Question 1:\<newline>Relevance: 8/10\<newline>Correctness: 7/10\<newline>Feedback: Good.''))
              (evaluation_prompt sample_pairs (String (js ''resume'')))) MAX_RETRIES 0) = 1"
    by (subst o; simp add: trim_def is_space_def js_def)+
  have o2: "outcome (retryWithBackoff (evaluation_call (sample_generator (js ''Question 1: Relevance: 3 Correctness: 12 Question 2: Overall: 9 Feedback: ok Question 3: Relevance: 2''))
              (evaluation_prompt sample_pairs (String (js ''resume'')))) MAX_RETRIES 0)
           = Inr (js ''Question 1: Relevance: 3 Correctness: 12 Question 2: Overall: 9 Feedback: ok Question 3: Relevance: 2'')"
    "world (retryWithBackoff (evaluation_call (sample_generator (js ''Question 1: Relevance: 3 Correctness: 12 Question 2: Overall: 9 Feedback: ok Question 3: Relevance: 2''))
              (evaluation_prompt sample_pairs (String (js ''resume'')))) MAX_RETRIES 0) = 1"
    by (subst o; simp add: trim_def is_space_def js_def)+
  have p1: "parse_block (js ''\<newline>Relevance: 8/10\<newline>Correctness: 7/10\<newline>Feedback: Good.'')
      = \<lparr>score = 8, relevanceScore = 8, correctnessScore = 7, feedback = js ''Good.''\<rparr>"
    by (simp add: parse_block_def parseInt_def clamp_score_def canon_def is_digit_def is_space_def
        trim_def Let_def js_def)
  have p2: "parse_block (js '' Relevance: 3 Correctness: 12 '')
      = \<lparr>score = 8, relevanceScore = 3, correctnessScore = 10,
         feedback = js ''Feedback could not be parsed. Please check the raw AI response if needed.''\<rparr>"
    "parse_block (js '' Overall: 9 Feedback: ok '')
      = \<lparr>score = 9, relevanceScore = 5, correctnessScore = 5, feedback = js ''ok''\<rparr>"
    by (simp_all add: parse_block_def parseInt_def clamp_score_def canon_def is_digit_def is_space_def
        trim_def Let_def js_def)
  have l: "length sample_pairs = 2" by (simp add: sample_pairs_def)
  from evaluateAllAnswers_total[OF ne v refl,
      of "sample_generator (js ''Question 1:\<newline>Relevance: 8/10\<newline>Correctness: 7/10\<newline>Feedback: Good.'')"
         "String (js ''resume'')" 0]
  have e1: "evaluateAllAnswers
         (sample_generator (js ''Question 1:\<newline>Relevance: 8/10\<newline>Correctness: 7/10\<newline>Feedback: Good.''))
         (Array sample_pairs) (String (js ''resume'')) 0
       = (Inr [\<lparr>score = 8, relevanceScore = 8, correctnessScore = 7, feedback = js ''Good.''\<rparr>,
               \<lparr>score = 1, relevanceScore = 1, correctnessScore = 1,
                feedback = js ''Evaluation for this question was missing in the AI response.''\<rparr>], 1)"
    by (auto simp: o1 r1 l p1)
  from evaluateAllAnswers_total[OF ne v refl,
      of "sample_generator (js ''Question 1: Relevance: 3 Correctness: 12 Question 2: Overall: 9 Feedback: ok Question 3: Relevance: 2'')"
         "String (js ''resume'')" 0]
  have e2: "evaluateAllAnswers
         (sample_generator (js ''Question 1: Relevance: 3 Correctness: 12 Question 2: Overall: 9 Feedback: ok Question 3: Relevance: 2''))
         (Array sample_pairs) (String (js ''resume'')) 0
       = (Inr [\<lparr>score = 8, relevanceScore = 3, correctnessScore = 10,
                feedback = js ''Feedback could not be parsed. Please check the raw AI response if needed.''\<rparr>,
               \<lparr>score = 9, relevanceScore = 5, correctnessScore = 5, feedback = js ''ok''\<rparr>], 1)"
    by (auto simp: o2 r2 l p2)
  from ne v l e1 e2 show ?thesis by (simp add: sample_pairs_def)
qed

text \<open>
  Claim C6 as stated fails: on the empty list \<open>evaluateAllAnswers\<close> does not fail, it returns
  the empty list.
\<close>

theorem evaluateAllAnswers_empty_input_returns:
  "evaluateAllAnswers (sample_generator (js ''Question 1: Relevance: 8'')) (Array [])
     (String (js ''resume'')) 0 = (Inr [], 0)"
  by (simp add: evaluateAllAnswers_def evaluateAllAnswers_try_def)

theorem evaluateAllAnswers_errors_swallowed_witness:
  "\<not> qa_pair Null
   \<and> evaluateAllAnswers (sample_generator (js ''Question 1: Relevance: 8'')) (Array [])
        (String (js ''resume'')) 0 = (Inr [], 0)
   \<and> evaluateAllAnswers (sample_generator (js ''Question 1: Relevance: 8''))
        (Array [Null]) (String (js ''resume'')) 0
       = (Inr [\<lparr>score = 1, relevanceScore = 1, correctnessScore = 1,
                feedback = js ''A critical error occurred during evaluation: Invalid format for question/answer pair at index 0. Expected {question: string, answer: string}. Unable to provide feedback for question 1.''\<rparr>], 0)
   \<and> response_blocks (js ''Question 1:'') = []
   \<and> evaluateAllAnswers (sample_generator (js ''Question 1:'')) (Array sample_pairs)
        (String (js ''resume'')) 0
       = (Inr [\<lparr>score = 1, relevanceScore = 1, correctnessScore = 1,
                feedback = js ''A critical error occurred during evaluation: Failed to parse evaluation response format. Unexpected AI output.. Unable to provide feedback for question 1.''\<rparr>,
               \<lparr>score = 1, relevanceScore = 1, correctnessScore = 1,
                feedback = js ''A critical error occurred during evaluation: Failed to parse evaluation response format. Unexpected AI output.. Unable to provide feedback for question 2.''\<rparr>], 1)"
proof -
  have n: "\<not> qa_pair Null" by (simp add: qa_pair_def)
  have b: "response_blocks (js ''Question 1:'') = []"
    by (simp add: response_blocks_def match_question_def canon_def is_digit_def is_space_def
        trim_def Let_def js_def)
  have v: "sample_pairs \<noteq> [] \<and> (\<forall>qa\<in>set sample_pairs. qa_pair qa)"
    by (simp add: sample_pairs_def qa_pair_def js_def)
  have o: "retryWithBackoff (evaluation_call (sample_generator (js ''Question 1:''))
              (evaluation_prompt sample_pairs (String (js ''resume'')))) MAX_RETRIES 0
           = \<lparr>outcome = Inr (js ''Question 1:''), world = 1, attempts = 1, delays = []\<rparr>"
    by (simp add: retryWithBackoff_def MAX_RETRIES_def retry_loop.simps evaluation_call_def
        sample_generator_def trim_def is_space_def js_def)
  note t = evaluateAllAnswers_errors_swallowed[of "sample_generator (js ''Question 1: Relevance: 8'')"
      "String (js ''resume'')" 0 "[Null]" "js ''Question 1:''"]
  note t2 = evaluateAllAnswers_errors_swallowed[of "sample_generator (js ''Question 1:'')"
      "String (js ''resume'')" 0 sample_pairs "js ''Question 1:''"]
  from t have 1: "evaluateAllAnswers (sample_generator (js ''Question 1: Relevance: 8'')) (Array [])
        (String (js ''resume'')) 0 = (Inr [], 0)" by blast
  from t n have 2: "evaluateAllAnswers (sample_generator (js ''Question 1: Relevance: 8''))
        (Array [Null]) (String (js ''resume'')) 0
       = (Inr (fallback_evaluations [Null]
                 (Error (js ''Invalid format for question/answer pair at index '' @ digits_of 0
                         @ js ''. Expected {question: string, answer: string}'')) 0), 0)"
    by simp
  from t2 v o b have 3: "evaluateAllAnswers (sample_generator (js ''Question 1:'')) (Array sample_pairs)
        (String (js ''resume'')) 0
       = (Inr (fallback_evaluations sample_pairs
                   (Error (js ''Failed to parse evaluation response format. Unexpected AI output.'')) 0), 1)"
    by simp
  from n b 1 2 3 show ?thesis
    by (simp add: sample_pairs_def message_text_def Error_def js_def digits_of.simps)
qed


subsection \<open>Cosine similarity\<close>

text \<open>
  Claim C10. When either argument of \<open>cosineSimilarity\<close> is not an array (\<^verbatim>\<open>null\<close>,
  \<^verbatim>\<open>undefined\<close>, a number, an object, ...) the function returns 0 and raises nothing, unlike
  what it does for mismatched, empty or non-numeric vectors.
\<close>

theorem cosineSimilarity_non_array:
  "\<not> is_array vecA \<or> \<not> is_array vecB \<Longrightarrow> cosineSimilarity vecA vecB = Inr (Fin 0)"
  by (simp add: cosineSimilarity_def)

theorem cosineSimilarity_non_array_witness:
  "\<not> is_array Null \<and> cosineSimilarity Null (Array [Number (Fin 1)]) = Inr (Fin 0)
   \<and> cosineSimilarity (Array [Number (Fin 1)]) (Number (Fin 7)) = Inr (Fin 0)
   \<and> cosineSimilarity Undefined (Object []) = Inr (Fin 0)"
  using cosineSimilarity_non_array[of Null "Array [Number (Fin 1)]"]
    cosineSimilarity_non_array[of "Array [Number (Fin 1)]" "Number (Fin 7)"]
    cosineSimilarity_non_array[of Undefined "Object []"]
  by simp



lemma clamp_range:
  "js_max (Fin (- 1)) (js_min (Fin 1) s) = NaN
   \<or> (\<exists>x. js_max (Fin (- 1)) (js_min (Fin 1) s) = Fin x \<and> - 1 \<le> x \<and> x \<le> 1
          \<and> (x = - 1 \<or> x = 1 \<or> s = Fin x))"
  by (cases s) auto

lemma js_div_on_grid: "js_div p q = Fin v \<Longrightarrow> on_grid v"
proof (cases p; cases q)
  fix a b assume "p = Fin a" "q = Fin b" "js_div p q = Fin v"
  then show ?thesis
    by (auto split: if_splits dest: round_double_on_grid)
next
  fix a assume "p = Fin a" "q = PInf" "js_div p q = Fin v"
  then show ?thesis using on_grid_int[of 0] by simp
next
  fix a assume "p = Fin a" "q = NInf" "js_div p q = Fin v"
  then show ?thesis using on_grid_int[of 0] by simp
qed (auto split: if_splits)

lemma cosineSimilarity_value:
  assumes "cosineSimilarity vecA vecB = Inr r"
  shows "r = NaN \<or> (\<exists>x. r = Fin x \<and> on_grid x \<and> - 1 \<le> x \<and> x \<le> 1)"
proof -
  have g0: "on_grid 0" "on_grid 1" "on_grid (- 1)"
    using on_grid_int[of 0] on_grid_int[of 1] on_grid_int[of "- 1"] by simp_all
  from assms consider "r = Fin 0"
    | s where "r = js_max (Fin (- 1)) (js_min (Fin 1) (js_div (fst s) (snd s)))"
    by (fastforce simp: cosineSimilarity_def Let_def split: if_splits)
  then show ?thesis
  proof cases
    case 1
    with g0 show ?thesis by auto
  next
    case (2 s)
    from clamp_range[of "js_div (fst s) (snd s)"] show ?thesis
    proof
      assume "js_max (Fin (- 1)) (js_min (Fin 1) (js_div (fst s) (snd s))) = NaN"
      with 2 show ?thesis by simp
    next
      assume "\<exists>x. js_max (Fin (- 1)) (js_min (Fin 1) (js_div (fst s) (snd s))) = Fin x
          \<and> - 1 \<le> x \<and> x \<le> 1 \<and> (x = - 1 \<or> x = 1 \<or> js_div (fst s) (snd s) = Fin x)"
      then obtain x where x: "js_max (Fin (- 1)) (js_min (Fin 1) (js_div (fst s) (snd s))) = Fin x"
        "- 1 \<le> x" "x \<le> 1" "x = - 1 \<or> x = 1 \<or> js_div (fst s) (snd s) = Fin x" by blast
      from x(4) g0 have "on_grid x" using js_div_on_grid by blast
      with 2 x show ?thesis by simp
    qed
  qed
qed


lemma round_double_int_small:
  "round_double 1 = Fin 1" "round_double 2 = Fin 2" "round_double 3 = Fin 3"
  "round_double 4 = Fin 4" "round_double 9 = Fin 9" "round_double 16 = Fin 16"
  "round_double 25 = Fin 25" "round_double 5 = Fin 5"
  using round_double_normal[of 52 1] round_double_normal[of 51 2] round_double_normal[of 51 3]
    round_double_normal[of 50 4] round_double_normal[of 49 9] round_double_normal[of 48 16]
    round_double_normal[of 48 25] round_double_normal[of 50 5]
  by (simp_all add: min_exponent_def)


lemma cosineSimilarity_nan:
  "cosineSimilarity (Array [Number PInf]) (Array [Number PInf]) = Inr NaN"
  by (simp add: cosineSimilarity_def Let_def)



subsection \<open>Chunk retrieval\<close>

lemma comparator_sign:
  assumes "comparable x" "comparable y"
  shows "js_less (Fin 0) (js_sub (similarity y) (similarity x)) \<longleftrightarrow> ranked_value x < ranked_value y"
proof -
  from assms obtain a b where a: "similarity x = Fin a" "on_grid a"
    and b: "similarity y = Fin b" "on_grid b"
    unfolding comparable_def by blast
  have g: "on_grid (b - a)" using a b by (simp add: on_grid_diff)
  have s: "js_sub (Fin b) (Fin a) = round_double (b - a)"
    by (simp add: js_sub_def)
  show ?thesis
  proof (cases "a < b")
    case True
    then have "0 < b - a" by simp
    with round_double_sign[OF g] have "round_double (b - a) = PInf \<or> (\<exists>d>0. round_double (b - a) = Fin d)"
      by blast
    then have "js_less (Fin 0) (round_double (b - a))" by auto
    with True show ?thesis by (simp add: s ranked_value_def a b)
  next
    case False
    show ?thesis
    proof (cases "a = b")
      case True
      then show ?thesis by (simp add: js_sub_def ranked_value_def a b)
    next
      case ne: False
      with False have "b - a < 0" by simp
      with round_double_sign[OF g] have "round_double (b - a) = NInf \<or> (\<exists>d<0. round_double (b - a) = Fin d)"
        by blast
      then have "\<not> js_less (Fin 0) (round_double (b - a))" by auto
      with False show ?thesis by (simp add: s ranked_value_def a b)
    qed
  qed
qed

lemma insert_sorted_set [simp]: "set (insert_sorted cmp x ys) = insert x (set ys)"
  by (induction ys) auto

lemma insert_sorted_length [simp]: "length (insert_sorted cmp x ys) = Suc (length ys)"
  by (induction ys) auto

lemma insert_sorted_descending:
  assumes "comparable x" "\<forall>y\<in>set ys. comparable y"
    and "sorted_wrt (\<lambda>p q. ranked_value q \<le> ranked_value p) ys"
  shows "sorted_wrt (\<lambda>p q. ranked_value q \<le> ranked_value p)
           (insert_sorted (\<lambda>a b. js_sub (similarity b) (similarity a)) x ys)"
  using assms
proof (induction ys)
  case Nil
  then show ?case by simp
next
  case (Cons y ys)
  have c: "js_less (Fin 0) (js_sub (similarity y) (similarity x)) \<longleftrightarrow> ranked_value x < ranked_value y"
    using comparator_sign[of x y] Cons.prems by simp
  show ?case
  proof (cases "ranked_value x < ranked_value y")
    case True
    with c Cons show ?thesis by (auto simp: less_imp_le)
  next
    case False
    then have "ranked_value y \<le> ranked_value x" by simp
    with False c Cons.prems show ?thesis by (auto intro: order_trans)
  qed
qed

lemma js_sort_descending:
  assumes "\<forall>y\<in>set xs. comparable y"
  shows "sorted_wrt (\<lambda>p q. ranked_value q \<le> ranked_value p)
           (js_sort (\<lambda>a b. js_sub (similarity b) (similarity a)) xs)
       \<and> set (js_sort (\<lambda>a b. js_sub (similarity b) (similarity a)) xs) = set xs
       \<and> length (js_sort (\<lambda>a b. js_sub (similarity b) (similarity a)) xs) = length xs"
  using assms
proof (induction xs)
  case Nil
  then show ?case by (simp add: js_sort_def)
next
  case (Cons x xs)
  then have ih: "sorted_wrt (\<lambda>p q. ranked_value q \<le> ranked_value p)
           (js_sort (\<lambda>a b. js_sub (similarity b) (similarity a)) xs)"
    "set (js_sort (\<lambda>a b. js_sub (similarity b) (similarity a)) xs) = set xs"
    "length (js_sort (\<lambda>a b. js_sub (similarity b) (similarity a)) xs) = length xs"
    by simp_all
  have e: "js_sort (\<lambda>a b. js_sub (similarity b) (similarity a)) (x # xs)
         = insert_sorted (\<lambda>a b. js_sub (similarity b) (similarity a)) x
             (js_sort (\<lambda>a b. js_sub (similarity b) (similarity a)) xs)"
    by (simp add: js_sort_def)
  have "sorted_wrt (\<lambda>p q. ranked_value q \<le> ranked_value p)
          (js_sort (\<lambda>a b. js_sub (similarity b) (similarity a)) (x # xs))"
    unfolding e using Cons.prems ih by (intro insert_sorted_descending) simp_all
  then show ?case using ih by (simp add: e)
qed

lemma zip_indices_set:
  "set (zip cs [0..<length cs]) = {(cs ! i, i) | i. i < length cs}"
  by (auto simp: set_zip)

lemma score_chunk_Some:
  assumes "score_chunk q (c, i) = Some r"
  shows "index r = i \<and> chunk r = c \<and> valid_chunk c
       \<and> cosineSimilarity q (get_prop c (js ''embedding'')) = Inr (similarity r)"
  using assms
  by (auto simp: score_chunk_def valid_chunk_def split: if_splits sum.splits)

lemma filter_length_le:
  "(\<And>x. x \<in> set xs \<Longrightarrow> Q x \<Longrightarrow> P x) \<Longrightarrow> length (filter Q xs) \<le> length (filter P xs)"
  by (induction xs) auto

lemma scored_length:
  "length (List.map_filter (\<lambda>item. item) (map (score_chunk q) (zip cs [0..<length cs])))
     \<le> length (filter valid_chunk cs)"
proof -
  let ?z = "zip cs [0..<length cs]"
  have "length (List.map_filter (\<lambda>item. item) (map (score_chunk q) ?z))
      = length (filter (\<lambda>ci. score_chunk q ci \<noteq> None) ?z)"
    by (simp add: List.map_filter_def filter_map comp_def)
  also have "\<dots> \<le> length (filter (\<lambda>ci. valid_chunk (fst ci)) ?z)"
  proof (rule filter_length_le)
    fix ci assume "ci \<in> set ?z" "score_chunk q ci \<noteq> None"
    then obtain r where "score_chunk q (fst ci, snd ci) = Some r" by auto
    from score_chunk_Some[OF this] show "valid_chunk (fst ci)" by simp
  qed
  also have "\<dots> = length (filter valid_chunk cs)"
  proof -
    have "filter valid_chunk (map fst ?z) = map fst (filter (\<lambda>ci. valid_chunk (fst ci)) ?z)"
      by (simp only: filter_map comp_def)
    then have "length (filter (\<lambda>ci. valid_chunk (fst ci)) ?z)
        = length (filter valid_chunk (map fst ?z))"
      by (metis length_map)
    moreover have "map fst ?z = cs" by simp
    ultimately show ?thesis by simp
  qed
  finally show ?thesis .
qed

lemma scored_member:
  assumes "r \<in> set (List.map_filter (\<lambda>item. item) (map (score_chunk q) (zip cs [0..<length cs])))"
  shows "index r < length cs \<and> chunk r = cs ! index r \<and> valid_chunk (chunk r)
       \<and> cosineSimilarity q (get_prop (chunk r) (js ''embedding'')) = Inr (similarity r)"
proof -
  from assms obtain ci where ci: "ci \<in> set (zip cs [0..<length cs])" "score_chunk q ci = Some r"
    by (auto simp: List.map_filter_def)
  from ci(1) obtain i where i: "i < length cs" "ci = (cs ! i, i)"
    unfolding zip_indices_set by blast
  from score_chunk_Some[of q "cs ! i" i r] ci(2) i show ?thesis by simp
qed


lemma similarities_comparable:
  assumes "r \<in> set (List.map_filter (\<lambda>item. item) (map (score_chunk q) (zip cs [0..<length cs])))"
    and "similarity r \<noteq> NaN"
  shows "comparable r"
proof -
  from scored_member[OF assms(1)]
  have "cosineSimilarity q (get_prop (chunk r) (js ''embedding'')) = Inr (similarity r)" by blast
  from cosineSimilarity_value[OF this] assms(2) show ?thesis
    unfolding comparable_def by blast
qed

lemma score_chunk_eq:
  "score_chunk q (c, i) =
     (if valid_chunk c then
        (case cosineSimilarity q (get_prop c (js ''embedding'')) of
           Inr v \<Rightarrow> Some \<lparr>index = i, chunk = c, similarity = v\<rparr>
         | Inl e \<Rightarrow> None)
      else None)"
  by (simp add: score_chunk_def valid_chunk_def)

lemma score_chunk_ranked:
  "(case score_chunk q ci of Some r \<Rightarrow> similarity r \<noteq> NaN | None \<Rightarrow> False) \<longleftrightarrow>
     (valid_chunk (fst ci) \<and> (\<exists>x. cosineSimilarity q (get_prop (fst ci) (js ''embedding'')) = Inr (Fin x)))"
proof (cases "cosineSimilarity q (get_prop (fst ci) (js ''embedding''))")
  case (Inl e)
  then show ?thesis by (cases ci) (simp add: score_chunk_eq)
next
  case (Inr v)
  from cosineSimilarity_value[OF this] have "v \<noteq> NaN \<longleftrightarrow> (\<exists>x. v = Fin x)" by auto
  with Inr show ?thesis by (cases ci) (simp add: score_chunk_eq)
qed

lemma map_filter_filter:
  "filter (\<lambda>item. similarity item \<noteq> NaN)
             (List.map_filter (\<lambda>item. item) (map (score_chunk q) xs))
      = List.map_filter (\<lambda>item. item) (map (score_chunk q)
          (filter (\<lambda>ci. case score_chunk q ci of Some r \<Rightarrow> similarity r \<noteq> NaN | None \<Rightarrow> False) xs))"
  by (induction xs) (auto simp: List.map_filter_def split: option.splits)

lemma map_filter_length:
  "\<forall>ci\<in>set xs. score_chunk q ci \<noteq> None \<Longrightarrow>
   length (List.map_filter (\<lambda>item. item) (map (score_chunk q) xs)) = length xs"
  by (induction xs) (auto simp: List.map_filter_def)

lemma filter_fst_length:
  "length (filter (\<lambda>ci. P (fst ci)) xs) = length (filter P (map fst xs))"
  by (induction xs) simp_all

lemma ranked_count:
  "length (filter (\<lambda>item. similarity item \<noteq> NaN)
             (List.map_filter (\<lambda>item. item) (map (score_chunk q) (zip cs [0..<length cs]))))
     = length (filter (\<lambda>c. valid_chunk c
                  \<and> (\<exists>x. cosineSimilarity q (get_prop c (js ''embedding'')) = Inr (Fin x))) cs)"
proof -
  let ?z = "zip cs [0..<length cs]"
  let ?R = "\<lambda>c. valid_chunk c \<and> (\<exists>x. cosineSimilarity q (get_prop c (js ''embedding'')) = Inr (Fin x))"
  have "length (filter (\<lambda>item. similarity item \<noteq> NaN)
             (List.map_filter (\<lambda>item. item) (map (score_chunk q) ?z)))
      = length (List.map_filter (\<lambda>item. item) (map (score_chunk q)
          (filter (\<lambda>ci. ?R (fst ci)) ?z)))"
    unfolding map_filter_filter score_chunk_ranked ..
  also have "\<dots> = length (filter (\<lambda>ci. ?R (fst ci)) ?z)"
  proof (rule map_filter_length, rule ballI)
    fix ci assume "ci \<in> set (filter (\<lambda>ci. ?R (fst ci)) ?z)"
    then have "?R (fst ci)" by simp
    then have "case score_chunk q ci of Some r \<Rightarrow> similarity r \<noteq> NaN | None \<Rightarrow> False"
      unfolding score_chunk_ranked .
    then show "score_chunk q ci \<noteq> None" by (cases "score_chunk q ci") simp_all
  qed
  also have "\<dots> = length (filter ?R (map fst ?z))"
    by (rule filter_fst_length)
  also have "map fst ?z = cs" by simp
  finally show ?thesis .
qed

lemma effective_topK_nat: "1 \<le> n \<Longrightarrow> effective_topK (Number (Fin (of_nat n))) = n"
  by (simp add: effective_topK_def)

lemma effective_topK_default:
  assumes "\<forall>n\<ge>1. topK \<noteq> Number (Fin (of_nat n))"
  shows "effective_topK topK = 3"
proof (cases "\<exists>k. topK = Number (Fin k) \<and> of_int \<lfloor>k\<rfloor> = k \<and> 1 \<le> k")
  case True
  then obtain k where k: "topK = Number (Fin k)" "of_int \<lfloor>k\<rfloor> = k" "1 \<le> k" by blast
  have f: "1 \<le> \<lfloor>k\<rfloor>" using k(3) by (simp add: le_floor_iff)
  then have "real (nat \<lfloor>k\<rfloor>) = of_int \<lfloor>k\<rfloor>" by simp
  with k(2) have "k = of_nat (nat \<lfloor>k\<rfloor>)" by metis
  moreover from f have "1 \<le> nat \<lfloor>k\<rfloor>" by linarith
  ultimately show ?thesis using assms k(1) by blast
next
  case False
  then show ?thesis
    by (auto simp: effective_topK_def split: jsval.splits jsnum.splits)
qed

text \<open>
  Claim C3, as far as it holds. \<open>findSimilarChunks\<close> always returns a list. The list is empty
  when the query vector or the chunk list is empty or not an array. Let \<open>k\<close> be \<open>topK\<close> when
  \<open>topK\<close> is a whole number from 1 on, and 3 for every other \<open>topK\<close>: the list never has more
  entries than \<open>min (k, validChunkCount)\<close>, and for a valid query and chunk list it has exactly
  \<open>min (k, n)\<close> entries, \<open>n\<close> being the number of valid chunks whose similarity to the query is
  a finite number. The list is sorted by descending similarity, all similarities being finite,
  and every entry carries its position in the input list, the chunk at that position, which is
  structurally valid, and the cosine similarity of the query to that chunk's embedding. Chunks
  that are invalid, or whose similarity cannot be computed, are left out and the call goes on.
\<close>

theorem findSimilarChunks_ranked:
  assumes "findSimilarChunks queryEmbedding chunks topK = result"
  shows "(\<not> truthy queryEmbedding \<or> \<not> is_array queryEmbedding \<or> array_length queryEmbedding = 0
            \<or> \<not> is_array chunks \<or> array_length chunks = 0 \<longrightarrow> result = [])
       \<and> (\<exists>k. (\<forall>n\<ge>1. topK = Number (Fin (of_nat n)) \<longrightarrow> k = n)
              \<and> ((\<forall>n\<ge>1. topK \<noteq> Number (Fin (of_nat n))) \<longrightarrow> k = 3)
              \<and> length result \<le> min k (length (filter valid_chunk (array_items chunks)))
              \<and> (truthy queryEmbedding \<and> is_array queryEmbedding \<and> array_length queryEmbedding \<noteq> 0
                   \<and> is_array chunks \<longrightarrow>
                  length result
                    = min k (length (filter
                        (\<lambda>c. valid_chunk c
                           \<and> (\<exists>x. cosineSimilarity queryEmbedding (get_prop c (js ''embedding''))
                                    = Inr (Fin x)))
                        (array_items chunks)))))
       \<and> sorted_wrt (\<lambda>p q. \<exists>a b. similarity p = Fin a \<and> similarity q = Fin b \<and> b \<le> a) result
       \<and> (\<forall>r\<in>set result.
             index r < array_length chunks \<and> chunk r = array_items chunks ! index r
             \<and> valid_chunk (chunk r)
             \<and> cosineSimilarity queryEmbedding (get_prop (chunk r) (js ''embedding''))
                 = Inr (similarity r))"
proof -
  let ?R = "\<lambda>c. valid_chunk c
      \<and> (\<exists>x. cosineSimilarity queryEmbedding (get_prop c (js ''embedding'')) = Inr (Fin x))"
  let ?bad = "\<not> truthy queryEmbedding \<or> \<not> is_array queryEmbedding \<or> array_length queryEmbedding = 0
            \<or> \<not> is_array chunks \<or> array_length chunks = 0"
  let ?k = "effective_topK topK"
  have k1: "\<forall>n\<ge>1. topK = Number (Fin (of_nat n)) \<longrightarrow> ?k = n"
    using effective_topK_nat by blast
  have k2: "(\<forall>n\<ge>1. topK \<noteq> Number (Fin (of_nat n))) \<longrightarrow> ?k = 3"
    using effective_topK_default by blast
  have emp: "?bad \<longrightarrow> result = []"
    using assms by (auto simp: findSimilarChunks_def)
  have all: "length result \<le> min ?k (length (filter valid_chunk (array_items chunks)))
       \<and> (truthy queryEmbedding \<and> is_array queryEmbedding \<and> array_length queryEmbedding \<noteq> 0
            \<and> is_array chunks \<longrightarrow>
           length result = min ?k (length (filter ?R (array_items chunks))))
       \<and> sorted_wrt (\<lambda>p q. \<exists>a b. similarity p = Fin a \<and> similarity q = Fin b \<and> b \<le> a) result
       \<and> (\<forall>r\<in>set result.
             index r < array_length chunks \<and> chunk r = array_items chunks ! index r
             \<and> valid_chunk (chunk r)
             \<and> cosineSimilarity queryEmbedding (get_prop (chunk r) (js ''embedding''))
                 = Inr (similarity r))"
  proof (cases ?bad)
    case True
    with emp have e: "result = []" by blast
    have "array_items chunks = []"
      if "truthy queryEmbedding \<and> is_array queryEmbedding \<and> array_length queryEmbedding \<noteq> 0
                   \<and> is_array chunks"
    proof -
      from that True have "array_length chunks = 0" by auto
      with that show ?thesis by (cases chunks) auto
    qed
    with e show ?thesis by auto
  next
    case False
    then obtain cs where cs: "chunks = Array cs" by (cases chunks) auto
    let ?scored = "List.map_filter (\<lambda>item. item) (map (score_chunk queryEmbedding) (zip cs [0..<length cs]))"
    let ?sims = "filter (\<lambda>item. similarity item \<noteq> NaN) ?scored"
    let ?sorted = "js_sort (\<lambda>a b. js_sub (similarity b) (similarity a)) ?sims"
    have r: "result = take ?k ?sorted"
      using assms False cs by (simp add: findSimilarChunks_def Let_def)
    have comp: "\<forall>y\<in>set ?sims. comparable y"
      using similarities_comparable by auto
    note srt = js_sort_descending[OF comp]
    have len: "length result \<le> min ?k (length (filter valid_chunk (array_items chunks)))"
    proof -
      have "length ?sims \<le> length ?scored" by simp
      also have "\<dots> \<le> length (filter valid_chunk cs)" by (rule scored_length)
      finally show ?thesis using srt by (simp add: r cs)
    qed
    have leq: "length result = min ?k (length (filter ?R (array_items chunks)))"
    proof -
      have "length ?sorted = length (filter ?R cs)"
        using srt ranked_count[of queryEmbedding cs] by simp
      then show ?thesis by (simp add: r cs min.commute)
    qed
    have sub: "set result \<subseteq> set ?sims"
      using srt by (auto simp: r dest: in_set_takeD)
    have "sorted_wrt (\<lambda>p q. ranked_value q \<le> ranked_value p) result"
      unfolding r using srt by (intro sorted_wrt_take) simp
    then have sorted: "sorted_wrt (\<lambda>p q. \<exists>a b. similarity p = Fin a \<and> similarity q = Fin b \<and> b \<le> a) result"
    proof (rule sorted_wrt_mono_rel[rotated])
      fix p q assume "p \<in> set result" "q \<in> set result" "ranked_value q \<le> ranked_value p"
      moreover from this sub comp have "comparable p" "comparable q" by auto
      ultimately show "\<exists>a b. similarity p = Fin a \<and> similarity q = Fin b \<and> b \<le> a"
        by (auto simp: comparable_def ranked_value_def)
    qed
    have mem: "\<forall>r\<in>set result.
               index r < array_length chunks \<and> chunk r = array_items chunks ! index r
               \<and> valid_chunk (chunk r)
               \<and> cosineSimilarity queryEmbedding (get_prop (chunk r) (js ''embedding''))
                   = Inr (similarity r)"
    proof
      fix x assume "x \<in> set result"
      with sub have "x \<in> set ?scored" by auto
      from scored_member[OF this] show "index x < array_length chunks \<and> chunk x = array_items chunks ! index x
               \<and> valid_chunk (chunk x)
               \<and> cosineSimilarity queryEmbedding (get_prop (chunk x) (js ''embedding''))
                   = Inr (similarity x)"
        unfolding cs array_items.simps array_length.simps by blast
    qed
    show ?thesis
      apply (rule conjI, rule len)
      apply (rule conjI, rule impI, rule leq)
      apply (rule conjI, rule sorted)
      apply (rule mem)
      done
  qed
  show ?thesis
    apply (rule conjI, rule emp)
    apply (rule conjI)
     apply (rule exI[of _ ?k])
     apply (rule conjI, rule k1)
     apply (rule conjI, rule k2)
     apply (rule conjI, rule all[THEN conjunct1])
     apply (rule all[THEN conjunct2, THEN conjunct1])
    apply (rule conjI, rule all[THEN conjunct2, THEN conjunct2, THEN conjunct1])
    apply (rule all[THEN conjunct2, THEN conjunct2, THEN conjunct2])
    done
qed

lemma round_double_minus: "0 < x \<Longrightarrow> round_double (- x) = js_neg (round_double x)"
  by (simp add: round_double_def split: option.splits)

lemmas similar_eval = findSimilarChunks_def sample_chunks_def score_chunk_def cosineSimilarity_def
  effective_topK_def js_sort_def js_sub_def List.map_filter_def Let_def js_def
  round_double_int_small round_double_minus upt_conv_Cons

text \<open>
  Claim C3 as stated fails for a \<open>topK\<close> that is not a whole number from 1 on: with \<open>topK = 0\<close>
  and five valid chunks the result has three entries, more than \<open>min (topK, validChunkCount)\<close>,
  which is 0.
\<close>

theorem findSimilarChunks_topK_zero:
  "length (findSimilarChunks (Array [Number (Fin 1), Number (Fin 0)]) sample_chunks (Number (Fin 0))) = 3
   \<and> length (filter valid_chunk (array_items sample_chunks)) = 5"
  by (simp add: similar_eval valid_chunk_def)

theorem findSimilarChunks_ranked_witness:
  "map (\<lambda>r. (index r, similarity r))
     (findSimilarChunks (Array [Number (Fin 1), Number (Fin 0)]) sample_chunks (Number (Fin 3)))
   = [(3, Fin 1), (6, Fin 1), (0, Fin 0)]
   \<and> map (\<lambda>r. (index r, similarity r))
     (findSimilarChunks (Array [Number (Fin 1), Number (Fin 0)]) sample_chunks (Number (Fin 9)))
   = [(3, Fin 1), (6, Fin 1), (0, Fin 0), (5, Fin (- 1))]
   \<and> sorted_wrt (\<lambda>p q. \<exists>a b. similarity p = Fin a \<and> similarity q = Fin b \<and> b \<le> a)
         (findSimilarChunks (Array [Number (Fin 1), Number (Fin 0)]) sample_chunks (Number (Fin 9)))
   \<and> findSimilarChunks (Array []) sample_chunks (Number (Fin 3)) = []
   \<and> findSimilarChunks (Array [Number (Fin 1), Number (Fin 0)]) Null (Number (Fin 3)) = []"
proof -
  note t = findSimilarChunks_ranked[OF refl, of "Array [Number (Fin 1), Number (Fin 0)]" sample_chunks
      "Number (Fin 9)"]
  note u = findSimilarChunks_ranked[OF refl, of "Array []" sample_chunks "Number (Fin 3)"]
  note v = findSimilarChunks_ranked[OF refl, of "Array [Number (Fin 1), Number (Fin 0)]" Null
      "Number (Fin 3)"]
  have 1: "map (\<lambda>r. (index r, similarity r))
     (findSimilarChunks (Array [Number (Fin 1), Number (Fin 0)]) sample_chunks (Number (Fin 3)))
   = [(3, Fin 1), (6, Fin 1), (0, Fin 0)]"
    by (simp add: similar_eval)
  have 2: "map (\<lambda>r. (index r, similarity r))
     (findSimilarChunks (Array [Number (Fin 1), Number (Fin 0)]) sample_chunks (Number (Fin 9)))
   = [(3, Fin 1), (6, Fin 1), (0, Fin 0), (5, Fin (- 1))]"
    by (simp add: similar_eval)
  have 3: "sorted_wrt (\<lambda>p q. \<exists>a b. similarity p = Fin a \<and> similarity q = Fin b \<and> b \<le> a)
         (findSimilarChunks (Array [Number (Fin 1), Number (Fin 0)]) sample_chunks (Number (Fin 9)))"
    by (rule t[THEN conjunct2, THEN conjunct2, THEN conjunct1])
  have 4: "findSimilarChunks (Array []) sample_chunks (Number (Fin 3)) = []"
    using u[THEN conjunct1] by simp
  have 5: "findSimilarChunks (Array [Number (Fin 1), Number (Fin 0)]) Null (Number (Fin 3)) = []"
    using v[THEN conjunct1] by simp
  from 1 2 3 4 5 show ?thesis by blast
qed
subsection \<open>Final scores\<close>

lemma round_double_nat:
  assumes "n < 2 ^ 53"
  shows "round_double (of_nat n) = Fin (of_nat n)"
proof (cases "n = 0")
  case True
  then show ?thesis by simp
next
  case False
  then have pos: "0 < int n" by simp
  define w where "w = nat (bitlen (int n))"
  have bl: "1 \<le> bitlen (int n)" using pos by (simp add: bitlen_ge_iff_power)
  then have "nat (bitlen (int n) - 1) = w - 1" by (simp add: w_def nat_diff_distrib)
  then have b: "2 ^ (w - 1) \<le> int n" "int n < 2 ^ w"
    using bitlen_bounds[OF pos] by (simp_all add: w_def)
  have w1: "1 \<le> w" using b(2) pos by (cases w) simp_all
  have "w \<le> 53"
  proof (rule ccontr)
    assume "\<not> w \<le> 53"
    then have "53 \<le> w - 1" by simp
    then have "(2::int) ^ 53 \<le> 2 ^ (w - 1)" by (intro power_increasing) simp_all
    moreover have "int n < 2 ^ 53"
      using assms by (metis of_nat_less_iff of_nat_numeral of_nat_power)
    ultimately show False using b(1) by linarith
  qed
  define e where "e = 53 - w"
  have e: "e \<le> min_exponent" by (simp add: e_def min_exponent_def)
  have we: "w - 1 + e = 52" "w + e = 53" using w1 \<open>w \<le> 53\<close> by (simp_all add: e_def)
  have "(2::int) ^ 52 = 2 ^ (w - 1 + e)" by (simp only: we)
  also have "\<dots> = 2 ^ (w - 1) * 2 ^ e" by (simp only: power_add)
  also have "\<dots> \<le> int n * 2 ^ e" using b(1) by simp
  finally have "real_of_int (2 ^ 52) \<le> real_of_int (int n * 2 ^ e)" by (simp only: of_int_le_iff)
  then have lo: "2 ^ 52 \<le> real n * 2 ^ e" by simp
  have "int n * 2 ^ e < 2 ^ w * 2 ^ e" using b(2) by simp
  also have "\<dots> = 2 ^ (w + e)" by (simp only: power_add)
  also have "\<dots> = 2 ^ 53" by (simp only: we)
  finally have "real_of_int (int n * 2 ^ e) < real_of_int (2 ^ 53)" by (simp only: of_int_less_iff)
  then have hi: "real n * 2 ^ e < 2 ^ 53" by simp
  have "real n * 2 ^ e = of_int (int n * 2 ^ e)" by simp
  then have r: "round_half_even (real n * 2 ^ e) = int n * 2 ^ e"
    by (simp only: round_half_even_int)
  from round_double_normal[OF e lo hi] show ?thesis unfolding r by simp
qed

lemma round_double_numeral:
  "numeral k < (2::nat) ^ 53 \<Longrightarrow> round_double (numeral k) = Fin (numeral k)"
  using round_double_nat[of "numeral k"] by simp





lemma toFixed1_7: "toFixed1 (Fin 7) = Fin 7"
  by (simp add: round_double_numeral)




end
